theory Spec2Isabelle
  imports Complex_Main "HOL-Library.Word"
begin

unbundle bit_operations_syntax

section \<open>Data model of the gateway\<close>

text \<open>
  Python values as they occur in \<^verbatim>\<open>raspberry-pi-gateway/live_ids.py\<close>:
  \<^item> \<^verbatim>\<open>bytes\<close> is a list of 8-bit words;
  \<^item> \<^verbatim>\<open>str\<close> is a list of Unicode code points (what \<^verbatim>\<open>len\<close> counts);
  \<^item> \<^verbatim>\<open>float\<close> timestamps, confidences and features are real numbers: rounding is
    not modelled, every operation that raises is;
  \<^item> an exception is a value of \<open>py_error\<close>, the left summand of a result.
\<close>

type_synonym byte = "8 word"
type_synonym pybytes = "byte list"
type_synonym codepoint = nat
type_synonym pystr = "codepoint list"

datatype py_error =
    ZeroDivisionError
  | ValueError
  | UnicodeDecodeError
  | UnicodeEncodeError
  | IndexError

text \<open>A string literal of the source, as code points.\<close>

definition str :: "string \<Rightarrow> pystr" where
  "str s = map of_char s"

subsection \<open>Configuration constants\<close>

definition DETECTION_THRESHOLD :: real where
  "DETECTION_THRESHOLD = 0.5"

definition ENABLE_AUTO_BLOCK :: bool where
  "ENABLE_AUTO_BLOCK = True"

definition ENABLE_CHECKSUM_VERIFICATION :: bool where
  "ENABLE_CHECKSUM_VERIFICATION = True"

definition AES_KEY :: pybytes where
  "AES_KEY = [0x2b, 0x7e, 0x15, 0x16, 0x28, 0xae, 0xd2, 0xa6,
              0xab, 0xf7, 0x15, 0x88, 0x09, 0xcf, 0x4f, 0x3c]"

section \<open>Library functions the gateway calls\<close>

subsection \<open>AES-128 (FIPS 197), as \<^verbatim>\<open>Crypto.Cipher.AES\<close> computes it\<close>

text \<open>
  The S-box and its inverse, as the tables of FIPS 197 (figures 7 and 14): the row is the
  high nibble of the byte, the column the low nibble.
\<close>

definition sbox_table :: "byte list list" where
  "sbox_table =
    [[0x63, 0x7c, 0x77, 0x7b, 0xf2, 0x6b, 0x6f, 0xc5, 0x30, 0x01, 0x67, 0x2b, 0xfe, 0xd7, 0xab, 0x76],
     [0xca, 0x82, 0xc9, 0x7d, 0xfa, 0x59, 0x47, 0xf0, 0xad, 0xd4, 0xa2, 0xaf, 0x9c, 0xa4, 0x72, 0xc0],
     [0xb7, 0xfd, 0x93, 0x26, 0x36, 0x3f, 0xf7, 0xcc, 0x34, 0xa5, 0xe5, 0xf1, 0x71, 0xd8, 0x31, 0x15],
     [0x04, 0xc7, 0x23, 0xc3, 0x18, 0x96, 0x05, 0x9a, 0x07, 0x12, 0x80, 0xe2, 0xeb, 0x27, 0xb2, 0x75],
     [0x09, 0x83, 0x2c, 0x1a, 0x1b, 0x6e, 0x5a, 0xa0, 0x52, 0x3b, 0xd6, 0xb3, 0x29, 0xe3, 0x2f, 0x84],
     [0x53, 0xd1, 0x00, 0xed, 0x20, 0xfc, 0xb1, 0x5b, 0x6a, 0xcb, 0xbe, 0x39, 0x4a, 0x4c, 0x58, 0xcf],
     [0xd0, 0xef, 0xaa, 0xfb, 0x43, 0x4d, 0x33, 0x85, 0x45, 0xf9, 0x02, 0x7f, 0x50, 0x3c, 0x9f, 0xa8],
     [0x51, 0xa3, 0x40, 0x8f, 0x92, 0x9d, 0x38, 0xf5, 0xbc, 0xb6, 0xda, 0x21, 0x10, 0xff, 0xf3, 0xd2],
     [0xcd, 0x0c, 0x13, 0xec, 0x5f, 0x97, 0x44, 0x17, 0xc4, 0xa7, 0x7e, 0x3d, 0x64, 0x5d, 0x19, 0x73],
     [0x60, 0x81, 0x4f, 0xdc, 0x22, 0x2a, 0x90, 0x88, 0x46, 0xee, 0xb8, 0x14, 0xde, 0x5e, 0x0b, 0xdb],
     [0xe0, 0x32, 0x3a, 0x0a, 0x49, 0x06, 0x24, 0x5c, 0xc2, 0xd3, 0xac, 0x62, 0x91, 0x95, 0xe4, 0x79],
     [0xe7, 0xc8, 0x37, 0x6d, 0x8d, 0xd5, 0x4e, 0xa9, 0x6c, 0x56, 0xf4, 0xea, 0x65, 0x7a, 0xae, 0x08],
     [0xba, 0x78, 0x25, 0x2e, 0x1c, 0xa6, 0xb4, 0xc6, 0xe8, 0xdd, 0x74, 0x1f, 0x4b, 0xbd, 0x8b, 0x8a],
     [0x70, 0x3e, 0xb5, 0x66, 0x48, 0x03, 0xf6, 0x0e, 0x61, 0x35, 0x57, 0xb9, 0x86, 0xc1, 0x1d, 0x9e],
     [0xe1, 0xf8, 0x98, 0x11, 0x69, 0xd9, 0x8e, 0x94, 0x9b, 0x1e, 0x87, 0xe9, 0xce, 0x55, 0x28, 0xdf],
     [0x8c, 0xa1, 0x89, 0x0d, 0xbf, 0xe6, 0x42, 0x68, 0x41, 0x99, 0x2d, 0x0f, 0xb0, 0x54, 0xbb, 0x16]]"

definition inv_sbox_table :: "byte list list" where
  "inv_sbox_table =
    [[0x52, 0x09, 0x6a, 0xd5, 0x30, 0x36, 0xa5, 0x38, 0xbf, 0x40, 0xa3, 0x9e, 0x81, 0xf3, 0xd7, 0xfb],
     [0x7c, 0xe3, 0x39, 0x82, 0x9b, 0x2f, 0xff, 0x87, 0x34, 0x8e, 0x43, 0x44, 0xc4, 0xde, 0xe9, 0xcb],
     [0x54, 0x7b, 0x94, 0x32, 0xa6, 0xc2, 0x23, 0x3d, 0xee, 0x4c, 0x95, 0x0b, 0x42, 0xfa, 0xc3, 0x4e],
     [0x08, 0x2e, 0xa1, 0x66, 0x28, 0xd9, 0x24, 0xb2, 0x76, 0x5b, 0xa2, 0x49, 0x6d, 0x8b, 0xd1, 0x25],
     [0x72, 0xf8, 0xf6, 0x64, 0x86, 0x68, 0x98, 0x16, 0xd4, 0xa4, 0x5c, 0xcc, 0x5d, 0x65, 0xb6, 0x92],
     [0x6c, 0x70, 0x48, 0x50, 0xfd, 0xed, 0xb9, 0xda, 0x5e, 0x15, 0x46, 0x57, 0xa7, 0x8d, 0x9d, 0x84],
     [0x90, 0xd8, 0xab, 0x00, 0x8c, 0xbc, 0xd3, 0x0a, 0xf7, 0xe4, 0x58, 0x05, 0xb8, 0xb3, 0x45, 0x06],
     [0xd0, 0x2c, 0x1e, 0x8f, 0xca, 0x3f, 0x0f, 0x02, 0xc1, 0xaf, 0xbd, 0x03, 0x01, 0x13, 0x8a, 0x6b],
     [0x3a, 0x91, 0x11, 0x41, 0x4f, 0x67, 0xdc, 0xea, 0x97, 0xf2, 0xcf, 0xce, 0xf0, 0xb4, 0xe6, 0x73],
     [0x96, 0xac, 0x74, 0x22, 0xe7, 0xad, 0x35, 0x85, 0xe2, 0xf9, 0x37, 0xe8, 0x1c, 0x75, 0xdf, 0x6e],
     [0x47, 0xf1, 0x1a, 0x71, 0x1d, 0x29, 0xc5, 0x89, 0x6f, 0xb7, 0x62, 0x0e, 0xaa, 0x18, 0xbe, 0x1b],
     [0xfc, 0x56, 0x3e, 0x4b, 0xc6, 0xd2, 0x79, 0x20, 0x9a, 0xdb, 0xc0, 0xfe, 0x78, 0xcd, 0x5a, 0xf4],
     [0x1f, 0xdd, 0xa8, 0x33, 0x88, 0x07, 0xc7, 0x31, 0xb1, 0x12, 0x10, 0x59, 0x27, 0x80, 0xec, 0x5f],
     [0x60, 0x51, 0x7f, 0xa9, 0x19, 0xb5, 0x4a, 0x0d, 0x2d, 0xe5, 0x7a, 0x9f, 0x93, 0xc9, 0x9c, 0xef],
     [0xa0, 0xe0, 0x3b, 0x4d, 0xae, 0x2a, 0xf5, 0xb0, 0xc8, 0xeb, 0xbb, 0x3c, 0x83, 0x53, 0x99, 0x61],
     [0x17, 0x2b, 0x04, 0x7e, 0xba, 0x77, 0xd6, 0x26, 0xe1, 0x69, 0x14, 0x63, 0x55, 0x21, 0x0c, 0x7d]]"

definition sub_byte :: "byte \<Rightarrow> byte" where
  "sub_byte x = sbox_table ! unat (drop_bit 4 x) ! unat (x AND 0x0f)"

definition inv_sub_byte :: "byte \<Rightarrow> byte" where
  "inv_sub_byte x = inv_sbox_table ! unat (drop_bit 4 x) ! unat (x AND 0x0f)"

text \<open>Multiplication by \<open>x\<close> in GF(2^8) modulo \<open>x^8 + x^4 + x^3 + x + 1\<close>, and by the
  constants of MixColumns and InvMixColumns.\<close>

definition xtime :: "byte \<Rightarrow> byte" where
  "xtime x = (if bit x 7 then push_bit 1 x XOR 0x1b else push_bit 1 x)"

definition mul2 :: "byte \<Rightarrow> byte" where
  "mul2 x = xtime x"

definition mul3 :: "byte \<Rightarrow> byte" where
  "mul3 x = xtime x XOR x"

definition mul9 :: "byte \<Rightarrow> byte" where
  "mul9 x = xtime (xtime (xtime x)) XOR x"

definition mul11 :: "byte \<Rightarrow> byte" where
  "mul11 x = xtime (xtime (xtime x)) XOR xtime x XOR x"

definition mul13 :: "byte \<Rightarrow> byte" where
  "mul13 x = xtime (xtime (xtime x)) XOR xtime (xtime x) XOR x"

definition mul14 :: "byte \<Rightarrow> byte" where
  "mul14 x = xtime (xtime (xtime x)) XOR xtime (xtime x) XOR xtime x"

text \<open>The state is the block itself, 16 bytes in column-major order: byte \<open>r + 4 c\<close> is
  row \<open>r\<close> of column \<open>c\<close>.\<close>

definition xor_bytes :: "pybytes \<Rightarrow> pybytes \<Rightarrow> pybytes" where
  "xor_bytes xs ys = map2 (XOR) xs ys"

definition sub_bytes :: "pybytes \<Rightarrow> pybytes" where
  "sub_bytes s = map sub_byte s"

definition inv_sub_bytes :: "pybytes \<Rightarrow> pybytes" where
  "inv_sub_bytes s = map inv_sub_byte s"

definition shift_rows :: "pybytes \<Rightarrow> pybytes" where
  "shift_rows s = map (\<lambda>i. s ! i) [0, 5, 10, 15, 4, 9, 14, 3, 8, 13, 2, 7, 12, 1, 6, 11]"

definition inv_shift_rows :: "pybytes \<Rightarrow> pybytes" where
  "inv_shift_rows s = map (\<lambda>i. s ! i) [0, 13, 10, 7, 4, 1, 14, 11, 8, 5, 2, 15, 12, 9, 6, 3]"

definition mix_column :: "pybytes \<Rightarrow> pybytes" where
  "mix_column c =
     (let a0 = c ! 0; a1 = c ! 1; a2 = c ! 2; a3 = c ! 3
      in [mul2 a0 XOR mul3 a1 XOR a2 XOR a3,
          a0 XOR mul2 a1 XOR mul3 a2 XOR a3,
          a0 XOR a1 XOR mul2 a2 XOR mul3 a3,
          mul3 a0 XOR a1 XOR a2 XOR mul2 a3])"

definition inv_mix_column :: "pybytes \<Rightarrow> pybytes" where
  "inv_mix_column c =
     (let a0 = c ! 0; a1 = c ! 1; a2 = c ! 2; a3 = c ! 3
      in [mul14 a0 XOR mul11 a1 XOR mul13 a2 XOR mul9 a3,
          mul9 a0 XOR mul14 a1 XOR mul11 a2 XOR mul13 a3,
          mul13 a0 XOR mul9 a1 XOR mul14 a2 XOR mul11 a3,
          mul11 a0 XOR mul13 a1 XOR mul9 a2 XOR mul14 a3])"

definition mix_columns :: "pybytes \<Rightarrow> pybytes" where
  "mix_columns s =
     mix_column (take 4 s) @ mix_column (take 4 (drop 4 s)) @
     mix_column (take 4 (drop 8 s)) @ mix_column (take 4 (drop 12 s))"

definition inv_mix_columns :: "pybytes \<Rightarrow> pybytes" where
  "inv_mix_columns s =
     inv_mix_column (take 4 s) @ inv_mix_column (take 4 (drop 4 s)) @
     inv_mix_column (take 4 (drop 8 s)) @ inv_mix_column (take 4 (drop 12 s))"

text \<open>Key expansion: each round key from the one before and a round constant.\<close>

definition rcon :: "byte list" where
  "rcon = [0x01, 0x02, 0x04, 0x08, 0x10, 0x20, 0x40, 0x80, 0x1b, 0x36]"

definition next_round_key :: "byte \<Rightarrow> pybytes \<Rightarrow> pybytes" where
  "next_round_key rc k =
     (let w0 = take 4 k; w1 = take 4 (drop 4 k); w2 = take 4 (drop 8 k);
          w3 = take 4 (drop 12 k);
          t = [sub_byte (w3 ! 1) XOR rc, sub_byte (w3 ! 2), sub_byte (w3 ! 3),
               sub_byte (w3 ! 0)];
          v0 = xor_bytes w0 t;
          v1 = xor_bytes w1 v0;
          v2 = xor_bytes w2 v1;
          v3 = xor_bytes w3 v2
      in v0 @ v1 @ v2 @ v3)"

fun key_schedule :: "byte list \<Rightarrow> pybytes \<Rightarrow> pybytes list" where
  "key_schedule [] k = [k]"
| "key_schedule (rc # rcs) k = k # key_schedule rcs (next_round_key rc k)"

definition round_keys :: "pybytes \<Rightarrow> pybytes list" where
  "round_keys key = key_schedule rcon key"

definition aes_round :: "pybytes \<Rightarrow> pybytes \<Rightarrow> pybytes" where
  "aes_round k s = xor_bytes (mix_columns (shift_rows (sub_bytes s))) k"

definition final_round :: "pybytes \<Rightarrow> pybytes \<Rightarrow> pybytes" where
  "final_round k s = xor_bytes (shift_rows (sub_bytes s)) k"

definition inv_aes_round :: "pybytes \<Rightarrow> pybytes \<Rightarrow> pybytes" where
  "inv_aes_round k s = inv_sub_bytes (inv_shift_rows (inv_mix_columns (xor_bytes s k)))"

definition inv_final_round :: "pybytes \<Rightarrow> pybytes \<Rightarrow> pybytes" where
  "inv_final_round k s = inv_sub_bytes (inv_shift_rows (xor_bytes s k))"

fun cipher_rounds :: "pybytes list \<Rightarrow> pybytes \<Rightarrow> pybytes" where
  "cipher_rounds [] s = s"
| "cipher_rounds [k] s = final_round k s"
| "cipher_rounds (k # ks) s = cipher_rounds ks (aes_round k s)"

fun inv_cipher_rounds :: "pybytes list \<Rightarrow> pybytes \<Rightarrow> pybytes" where
  "inv_cipher_rounds [] s = s"
| "inv_cipher_rounds [k] s = inv_final_round k s"
| "inv_cipher_rounds (k # ks) s = inv_aes_round k (inv_cipher_rounds ks s)"

definition aes_encrypt_block :: "pybytes \<Rightarrow> pybytes \<Rightarrow> pybytes" where
  "aes_encrypt_block key b =
     (case round_keys key of [] \<Rightarrow> b | k0 # ks \<Rightarrow> cipher_rounds ks (xor_bytes b k0))"

definition aes_decrypt_block :: "pybytes \<Rightarrow> pybytes \<Rightarrow> pybytes" where
  "aes_decrypt_block key c =
     (case round_keys key of [] \<Rightarrow> c | k0 # ks \<Rightarrow> xor_bytes (inv_cipher_rounds ks c) k0)"

text \<open>ECB mode: every 16-byte block on its own; data that is not a whole number of blocks
  raises ValueError.\<close>

fun split_blocks :: "pybytes \<Rightarrow> pybytes list" where
  "split_blocks bs = (if bs = [] then [] else take 16 bs # split_blocks (drop 16 bs))"

declare split_blocks.simps [simp del]

definition ecb_encrypt :: "pybytes \<Rightarrow> pybytes \<Rightarrow> py_error + pybytes" where
  "ecb_encrypt key plaintext =
     (if length plaintext mod 16 \<noteq> 0 then Inl ValueError
      else Inr (concat (map (aes_encrypt_block key) (split_blocks plaintext))))"

definition ecb_decrypt :: "pybytes \<Rightarrow> pybytes \<Rightarrow> py_error + pybytes" where
  "ecb_decrypt key ciphertext =
     (if length ciphertext mod 16 \<noteq> 0 then Inl ValueError
      else Inr (concat (map (aes_decrypt_block key) (split_blocks ciphertext))))"

subsection \<open>Padding (\<^verbatim>\<open>Crypto.Util.Padding\<close>, style pkcs7) and \<^verbatim>\<open>bytes.rstrip\<close>\<close>

definition pad :: "pybytes \<Rightarrow> nat \<Rightarrow> pybytes" where
  "pad data_to_pad block_size =
     (let padding_len = block_size - length data_to_pad mod block_size
      in data_to_pad @ replicate padding_len (of_nat padding_len))"

definition unpad :: "pybytes \<Rightarrow> nat \<Rightarrow> py_error + pybytes" where
  "unpad padded_data block_size =
     (let pdata_len = length padded_data in
      if pdata_len = 0 then Inl ValueError
      else if pdata_len mod block_size \<noteq> 0 then Inl ValueError
      else
        let padding_len = unat (last padded_data) in
        if padding_len < 1 \<or> padding_len > min block_size pdata_len then Inl ValueError
        else if drop (pdata_len - padding_len) padded_data
                  \<noteq> replicate padding_len (last padded_data) then Inl ValueError
        else Inr (take (pdata_len - padding_len) padded_data))"

definition rstrip_zero :: "pybytes \<Rightarrow> pybytes" where
  "rstrip_zero bs = rev (dropWhile (\<lambda>b. b = 0) (rev bs))"

subsection \<open>UTF-8 (\<^verbatim>\<open>str.encode\<close>, \<^verbatim>\<open>bytes.decode\<close>, both strict)\<close>

definition utf8_encode_cp :: "codepoint \<Rightarrow> py_error + pybytes" where
  "utf8_encode_cp c =
     (if c < 0x80 then Inr [of_nat c]
      else if c < 0x800 then Inr [of_nat (0xC0 + c div 64), of_nat (0x80 + c mod 64)]
      else if c < 0x10000 then
        (if 0xD800 \<le> c \<and> c < 0xE000 then Inl UnicodeEncodeError
         else Inr [of_nat (0xE0 + c div 4096), of_nat (0x80 + c div 64 mod 64),
                   of_nat (0x80 + c mod 64)])
      else if c < 0x110000 then
        Inr [of_nat (0xF0 + c div 262144), of_nat (0x80 + c div 4096 mod 64),
             of_nat (0x80 + c div 64 mod 64), of_nat (0x80 + c mod 64)]
      else Inl UnicodeEncodeError)"

fun utf8_encode :: "pystr \<Rightarrow> py_error + pybytes" where
  "utf8_encode [] = Inr []"
| "utf8_encode (c # cs) =
     (case utf8_encode_cp c of
        Inl e \<Rightarrow> Inl e
      | Inr bs \<Rightarrow> (case utf8_encode cs of Inl e \<Rightarrow> Inl e | Inr rest \<Rightarrow> Inr (bs @ rest)))"

definition is_continuation :: "byte \<Rightarrow> bool" where
  "is_continuation b = (0x80 \<le> unat b \<and> unat b < 0xC0)"

text \<open>The decoder accepts the well-formed sequences only: no overlong form, no surrogate,
  nothing above U+10FFFF, no truncated sequence.\<close>

text \<open>Decoding the sequence at the head of the data: the code point and the number of
  bytes it takes.\<close>

definition utf8_decode_first :: "pybytes \<Rightarrow> py_error + codepoint \<times> nat" where
  "utf8_decode_first bs =
     (case bs of
        [] \<Rightarrow> Inl UnicodeDecodeError
      | b0 # r0 \<Rightarrow>
          let n0 = unat b0 in
          if n0 < 0x80 then Inr (n0, 1)
          else if 0xC2 \<le> n0 \<and> n0 < 0xE0 then
            (case r0 of
               b1 # r \<Rightarrow>
                 if is_continuation b1
                 then Inr ((n0 - 0xC0) * 64 + (unat b1 - 0x80), 2)
                 else Inl UnicodeDecodeError
             | _ \<Rightarrow> Inl UnicodeDecodeError)
          else if 0xE0 \<le> n0 \<and> n0 < 0xF0 then
            (case r0 of
               b1 # b2 # r \<Rightarrow>
                 let c = (n0 - 0xE0) * 4096 + (unat b1 - 0x80) * 64 + (unat b2 - 0x80) in
                 if is_continuation b1 \<and> is_continuation b2 \<and> 0x800 \<le> c
                    \<and> \<not> (0xD800 \<le> c \<and> c < 0xE000)
                 then Inr (c, 3) else Inl UnicodeDecodeError
             | _ \<Rightarrow> Inl UnicodeDecodeError)
          else if 0xF0 \<le> n0 \<and> n0 < 0xF5 then
            (case r0 of
               b1 # b2 # b3 # r \<Rightarrow>
                 let c = (n0 - 0xF0) * 262144 + (unat b1 - 0x80) * 4096
                         + (unat b2 - 0x80) * 64 + (unat b3 - 0x80) in
                 if is_continuation b1 \<and> is_continuation b2 \<and> is_continuation b3
                    \<and> 0x10000 \<le> c \<and> c < 0x110000
                 then Inr (c, 4) else Inl UnicodeDecodeError
             | _ \<Rightarrow> Inl UnicodeDecodeError)
          else Inl UnicodeDecodeError)"

function utf8_decode :: "pybytes \<Rightarrow> py_error + pystr" where
  "utf8_decode bs =
     (if bs = [] then Inr []
      else case utf8_decode_first bs of
             Inl e \<Rightarrow> Inl e
           | Inr (c, n) \<Rightarrow>
               (case utf8_decode (drop n bs) of
                  Inl e \<Rightarrow> Inl e
                | Inr cs \<Rightarrow> Inr (c # cs)))"
  by pat_completeness auto
termination
  by (relation "measure length")
     (auto simp: utf8_decode_first_def Let_def split: list.splits if_splits)

declare utf8_decode.simps [simp del]

subsection \<open>CRC-32 (\<^verbatim>\<open>zlib.crc32\<close>) and \<^verbatim>\<open>format(n, '08X')\<close>\<close>

definition crc32_shift :: "32 word \<Rightarrow> 32 word" where
  "crc32_shift c = (if bit c 0 then drop_bit 1 c XOR 0xEDB88320 else drop_bit 1 c)"

definition crc32_update :: "32 word \<Rightarrow> byte \<Rightarrow> 32 word" where
  "crc32_update c b = (crc32_shift ^^ 8) (c XOR ucast b)"

definition crc32 :: "pybytes \<Rightarrow> 32 word" where
  "crc32 bs = foldl crc32_update 0xFFFFFFFF bs XOR 0xFFFFFFFF"

definition hex_digit :: "nat \<Rightarrow> codepoint" where
  "hex_digit d = (if d < 10 then 48 + d else 55 + d)"

definition format_08X :: "32 word \<Rightarrow> pystr" where
  "format_08X w =
     map (\<lambda>i. hex_digit (unat (drop_bit (4 * i) w AND 0xF))) [7, 6, 5, 4, 3, 2, 1, 0]"

subsection \<open>\<^verbatim>\<open>str.rsplit(sep, 1)\<close> and \<^verbatim>\<open>str.strip()\<close>\<close>

text \<open>At most one split, at the last occurrence of the separator: one part when the
  separator does not occur, two parts otherwise.\<close>

definition rsplit1 :: "codepoint \<Rightarrow> pystr \<Rightarrow> pystr list" where
  "rsplit1 sep s =
     (let r = rev s in
      case dropWhile (\<lambda>c. c \<noteq> sep) r of
        [] \<Rightarrow> [s]
      | _ # front \<Rightarrow> [rev front, rev (takeWhile (\<lambda>c. c \<noteq> sep) r)])"

text \<open>The code points for which \<^verbatim>\<open>str.isspace\<close> holds.\<close>

definition py_isspace :: "codepoint \<Rightarrow> bool" where
  "py_isspace c =
     ((0x09 \<le> c \<and> c \<le> 0x0D) \<or> (0x1C \<le> c \<and> c \<le> 0x20) \<or> c = 0x85 \<or> c = 0xA0
      \<or> c = 0x1680 \<or> (0x2000 \<le> c \<and> c \<le> 0x200A) \<or> c = 0x2028 \<or> c = 0x2029
      \<or> c = 0x202F \<or> c = 0x205F \<or> c = 0x3000)"

definition strip :: "pystr \<Rightarrow> pystr" where
  "strip s = rev (dropWhile py_isspace (rev (dropWhile py_isspace s)))"

text \<open>Subscripting a sequence \<^verbatim>\<open>xs[i]\<close>: an index from \<open>-len\<close> up to \<open>-1\<close> is taken from
  the back, an index outside \<open>-len .. len - 1\<close> raises IndexError.\<close>

definition py_index :: "'a list \<Rightarrow> int \<Rightarrow> py_error + 'a" where
  "py_index xs i =
     (if 0 \<le> i \<and> i < int (length xs) then Inr (xs ! nat i)
      else if i < 0 \<and> - int (length xs) \<le> i then Inr (xs ! nat (int (length xs) + i))
      else Inl IndexError)"

section \<open>The gateway (live\_ids.py)\<close>

subsection \<open>Integrity verification\<close>

text \<open>\<^verbatim>\<open>calculate_crc32(data)\<close>, called on a string: the CRC-32 of its UTF-8 bytes as eight
  uppercase hexadecimal digits. The encoding raises on a string that has no UTF-8 form.\<close>

definition calculate_crc32 :: "pystr \<Rightarrow> py_error + pystr" where
  "calculate_crc32 data =
     (case utf8_encode data of
        Inl e \<Rightarrow> Inl e
      | Inr bs \<Rightarrow> Inr (format_08X (crc32 bs AND 0xFFFFFFFF)))"

text \<open>\<^verbatim>\<open>decrypt_aes(ciphertext)\<close>: the decrypted string, or \<open>None\<close> where the source
  returns \<^verbatim>\<open>None\<close> from its \<^verbatim>\<open>except\<close> branch. A failed \<^verbatim>\<open>unpad\<close> falls back
  to trimming trailing zero bytes.\<close>

definition decrypt_aes :: "pybytes \<Rightarrow> pystr option" where
  "decrypt_aes ciphertext =
     (case ecb_decrypt AES_KEY ciphertext of
        Inl e \<Rightarrow> None
      | Inr decrypted \<Rightarrow>
          let unpadded = (case unpad decrypted 16 of
                            Inl e \<Rightarrow> rstrip_zero decrypted
                          | Inr u \<Rightarrow> u)
          in case utf8_decode unpadded of Inl e \<Rightarrow> None | Inr s \<Rightarrow> Some s)"

text \<open>\<^verbatim>\<open>verify_checksum(data_with_checksum)\<close>: the pair of the data and the validity, which
  is \<open>None\<close>, \<open>Some True\<close> or \<open>Some False\<close>. Code point 124 is the delimiter \<^verbatim>\<open>|\<close>. Any
  exception inside gives the whole string and \<open>Some False\<close>.\<close>

definition verify_checksum :: "pystr \<Rightarrow> pystr \<times> bool option" where
  "verify_checksum data_with_checksum =
     (if 124 \<notin> set data_with_checksum then (data_with_checksum, None)
      else
        let parts = rsplit1 124 data_with_checksum in
        case py_index parts 0 of
          Inl e \<Rightarrow> (data_with_checksum, Some False)
        | Inr data \<Rightarrow>
            (case py_index parts 1 of
               Inl e \<Rightarrow> (data_with_checksum, Some False)
             | Inr part1 \<Rightarrow>
                 let received_checksum = strip part1 in
                 case calculate_crc32 data of
                   Inl e \<Rightarrow> (data_with_checksum, Some False)
                 | Inr calculated_checksum \<Rightarrow>
                     let is_valid = (received_checksum = calculated_checksum)
                     in (data, Some is_valid)))"

subsection \<open>Feature extraction\<close>

text \<open>\<^verbatim>\<open>extract_features(topic, payload_length, time_delta)\<close>. The float division
  \<^verbatim>\<open>1.0 / (time_delta + 0.001)\<close> raises ZeroDivisionError when the divisor is zero;
  \<^verbatim>\<open>reshape(1, -1)\<close> makes the five features the only row of a matrix.\<close>

definition extract_features :: "pystr \<Rightarrow> nat \<Rightarrow> real \<Rightarrow> py_error + real list list" where
  "extract_features topic payload_length time_delta =
     (if time_delta + 0.001 = 0 then Inl ZeroDivisionError
      else
        let packet_length = real payload_length;
            topic_length = real (length topic);
            packets_per_sec = 1.0 / (time_delta + 0.001);
            avg_payload_size = real payload_length;
            feature_vector =
              [packet_length, time_delta, topic_length, packets_per_sec, avg_payload_size]
        in Inr [feature_vector])"

subsection \<open>Intrusion detection\<close>

text \<open>
  The classifier and the scaler are objects loaded from the model file. Of the classifier
  the gateway uses \<^verbatim>\<open>predict(features)[0]\<close> and \<^verbatim>\<open>predict_proba(features)[0]\<close>, of the
  scaler \<^verbatim>\<open>transform(features)\<close>; each call may raise, which is the value \<open>None\<close>.
\<close>

record classifier =
  predict :: "real list list \<Rightarrow> int option"
  predict_proba :: "real list list \<Rightarrow> real list option"

type_synonym scaler = "real list list \<Rightarrow> real list list option"

definition detect_intrusion ::
    "classifier option \<Rightarrow> scaler option \<Rightarrow> real list list \<Rightarrow> bool \<times> real" where
  "detect_intrusion ml_model scaler features =
     (case ml_model of
        None \<Rightarrow> (False, 0.0)
      | Some m \<Rightarrow>
          (case (case scaler of None \<Rightarrow> Some features | Some sc \<Rightarrow> sc features) of
             None \<Rightarrow> (False, 0.0)
           | Some features' \<Rightarrow>
               (case predict m features' of
                  None \<Rightarrow> (False, 0.0)
                | Some prediction \<Rightarrow>
                    let confidence =
                          (case predict_proba m features' of
                             None \<Rightarrow> (if prediction = 1 then 1.0 else 0.0)
                           | Some probabilities \<Rightarrow>
                               (case py_index probabilities prediction of
                                  Inl e \<Rightarrow> (if prediction = 1 then 1.0 else 0.0)
                                | Inr p \<Rightarrow> p));
                        is_attack = (prediction = 1 \<and> confidence \<ge> DETECTION_THRESHOLD)
                    in (is_attack, confidence))))"

subsection \<open>State of the process and of its surroundings\<close>

text \<open>
  The module's globals \<^verbatim>\<open>last_packet_time\<close>, \<^verbatim>\<open>blocked_ips\<close> and the four counters of
  \<^verbatim>\<open>packet_stats\<close>, together with what the process leaves outside itself: the lines
  appended to the attack log and the commands handed to \<^verbatim>\<open>subprocess.run\<close>.
\<close>

record log_entry =
  log_timestamp :: pystr
  log_topic :: pystr
  log_length :: nat
  log_source_ip :: "pystr option"
  log_confidence :: real

record ids_state =
  last_packet_time :: "pystr \<rightharpoonup> real"
  blocked_ips :: "pystr set"
  total_packets :: nat
  attacks_detected :: nat
  ips_blocked :: nat
  checksum_failures :: nat
  attack_log :: "log_entry list"
  commands_run :: "pystr list"

definition initial_state :: ids_state where
  "initial_state =
     \<lparr>last_packet_time = Map.empty, blocked_ips = {}, total_packets = 0,
      attacks_detected = 0, ips_blocked = 0, checksum_failures = 0,
      attack_log = [], commands_run = []\<rparr>"

text \<open>What \<^verbatim>\<open>subprocess.run\<close> does with a command: it returns with an exit status, or it
  raises.\<close>

datatype run_result = Returncode int | Run_raises

subsection \<open>Firewall management\<close>

definition block_ip :: "run_result \<Rightarrow> pystr \<Rightarrow> ids_state \<Rightarrow> ids_state" where
  "block_ip result ip_address st =
     (if ip_address \<in> blocked_ips st then st
      else
        let command = str ''sudo iptables -A INPUT -s '' @ ip_address @ str '' -j DROP'';
            st1 = st\<lparr>commands_run := commands_run st @ [command]\<rparr>
        in case result of
             Run_raises \<Rightarrow> st1
           | Returncode rc \<Rightarrow>
               if rc = 0
               then st1\<lparr>blocked_ips := insert ip_address (blocked_ips st1),
                        ips_blocked := ips_blocked st1 + 1\<rparr>
               else st1)"

definition unblock_ip :: "run_result \<Rightarrow> pystr \<Rightarrow> ids_state \<Rightarrow> ids_state" where
  "unblock_ip result ip_address st =
     (let command = str ''sudo iptables -D INPUT -s '' @ ip_address @ str '' -j DROP'';
          st1 = st\<lparr>commands_run := commands_run st @ [command]\<rparr>
      in case result of
           Run_raises \<Rightarrow> st1
         | Returncode rc \<Rightarrow>
             if rc = 0
             then st1\<lparr>blocked_ips := blocked_ips st1 - {ip_address}\<rparr>
             else st1)"

subsection \<open>Utilities\<close>

record mqtt_msg =
  msg_topic :: pystr
  msg_payload :: pybytes

definition extract_source_ip :: "mqtt_msg \<Rightarrow> pystr option" where
  "extract_source_ip msg = None"

text \<open>\<^verbatim>\<open>log_attack\<close> appends one line built from its five arguments; a source of \<open>None\<close> is
  printed as \<^verbatim>\<open>None\<close>. When the file cannot be written the exception is caught and
  nothing is appended.\<close>

definition log_attack ::
    "bool \<Rightarrow> pystr \<Rightarrow> pystr \<Rightarrow> nat \<Rightarrow> pystr option \<Rightarrow> real \<Rightarrow> ids_state \<Rightarrow> ids_state" where
  "log_attack writable timestamp topic payload_length source_ip confidence st =
     (if writable
      then st\<lparr>attack_log := attack_log st @
                 [\<lparr>log_timestamp = timestamp, log_topic = topic, log_length = payload_length,
                   log_source_ip = source_ip, log_confidence = confidence\<rparr>]\<rparr>
      else st)"

subsection \<open>The message callback\<close>

text \<open>What one call of \<^verbatim>\<open>on_message\<close> reads from outside the process: the clock
  (\<^verbatim>\<open>time.time()\<close> and the formatted \<^verbatim>\<open>datetime.now()\<close>), the outcome of the firewall
  command and whether the log file can be appended to.\<close>

record env =
  time_now :: real
  now_str :: pystr
  iptables_result :: run_result
  log_writable :: bool

text \<open>Lines 184 to 190 of \<^verbatim>\<open>on_message\<close>: the time since the last packet on the topic,
  and the table with the topic's time set to now.\<close>

definition flow_delta :: "pystr \<Rightarrow> real \<Rightarrow> (pystr \<rightharpoonup> real) \<Rightarrow> real \<times> (pystr \<rightharpoonup> real)" where
  "flow_delta topic timestamp last_seen =
     (let time_delta = (case last_seen topic of Some t \<Rightarrow> timestamp - t | None \<Rightarrow> 0)
      in (time_delta, last_seen(topic \<mapsto> timestamp)))"

text \<open>Lines 172 to 182: the validity of the checksum and the state with the failure
  counted.\<close>

definition check_payload :: "pybytes \<Rightarrow> ids_state \<Rightarrow> bool option \<times> ids_state" where
  "check_payload payload st =
     (if ENABLE_CHECKSUM_VERIFICATION then
        (case decrypt_aes payload of
           None \<Rightarrow> (None, st)
         | Some decrypted_data \<Rightarrow>
             if decrypted_data \<noteq> [] then
               (let checksum_valid = snd (verify_checksum decrypted_data)
                in if checksum_valid = Some False
                   then (checksum_valid, st\<lparr>checksum_failures := checksum_failures st + 1\<rparr>)
                   else (checksum_valid, st))
             else (None, st))
      else (None, st))"

text \<open>The whole callback. An exception from \<^verbatim>\<open>extract_features\<close> is caught by the outer
  \<^verbatim>\<open>except\<close>: what was written to the state before it stays.\<close>

definition on_message ::
    "classifier option \<Rightarrow> scaler option \<Rightarrow> env \<Rightarrow> mqtt_msg \<Rightarrow> ids_state \<Rightarrow> ids_state" where
  "on_message ml_model scaler ev msg st =
     (let timestamp = time_now ev;
          topic = msg_topic msg;
          payload = msg_payload msg;
          payload_length = length payload;
          (checksum_valid, st1) = check_payload payload st;
          (time_delta, last_seen) = flow_delta topic timestamp (last_packet_time st1);
          st2 = st1\<lparr>last_packet_time := last_seen\<rparr>
      in case extract_features topic payload_length time_delta of
           Inl e \<Rightarrow> st2
         | Inr features \<Rightarrow>
             let (is_attack, confidence) = detect_intrusion ml_model scaler features;
                 st3 = st2\<lparr>total_packets := total_packets st2 + 1\<rparr>;
                 timestamp_str = now_str ev
             in if is_attack then
                  let st4 = st3\<lparr>attacks_detected := attacks_detected st3 + 1\<rparr>;
                      source_ip = extract_source_ip msg;
                      st5 = (case source_ip of
                               None \<Rightarrow> st4
                             | Some ip \<Rightarrow>
                                 if ip \<noteq> [] \<and> ENABLE_AUTO_BLOCK
                                 then block_ip (iptables_result ev) ip st4
                                 else st4)
                  in log_attack (log_writable ev) timestamp_str topic payload_length
                       source_ip confidence st5
                else st3)"

text \<open>The ingest loop: \<^verbatim>\<open>loop_forever\<close> calls \<^verbatim>\<open>on_message\<close> once for each message, in
  the order of arrival.\<close>

fun ingest_loop ::
    "classifier option \<Rightarrow> scaler option \<Rightarrow> (env \<times> mqtt_msg) list \<Rightarrow> ids_state \<Rightarrow> ids_state" where
  "ingest_loop ml_model scaler [] st = st"
| "ingest_loop ml_model scaler ((ev, msg) # rest) st =
     ingest_loop ml_model scaler rest (on_message ml_model scaler ev msg st)"

text \<open>Any sequence of calls that change the state: messages, blocks and unblocks.\<close>

datatype gateway_call =
    On_message env mqtt_msg
  | Block_ip run_result pystr
  | Unblock_ip run_result pystr

fun run_call :: "classifier option \<Rightarrow> scaler option \<Rightarrow> gateway_call \<Rightarrow> ids_state \<Rightarrow> ids_state" where
  "run_call ml_model scaler (On_message ev msg) st = on_message ml_model scaler ev msg st"
| "run_call ml_model scaler (Block_ip result ip) st = block_ip result ip st"
| "run_call ml_model scaler (Unblock_ip result ip) st = unblock_ip result ip st"

fun run_calls ::
    "classifier option \<Rightarrow> scaler option \<Rightarrow> gateway_call list \<Rightarrow> ids_state \<Rightarrow> ids_state" where
  "run_calls ml_model scaler [] st = st"
| "run_calls ml_model scaler (c # cs) st =
     run_calls ml_model scaler cs (run_call ml_model scaler c st)"

section \<open>The sending side\<close>

text \<open>
  Modelled from the spec: the sender's encryption, which is not among the source files.
  The spec has the plaintext \<^verbatim>\<open><data>|<CHECKSUM>\<close> encrypted with the pre-shared key in
  the fixed block mode, padded either by the library's block padding or by zero bytes up
  to a block boundary. \<open>Zero_padding n\<close> appends \<open>n\<close> zero bytes.
\<close>

datatype padding_scheme = Pkcs7 | Zero_padding nat

definition apply_padding :: "padding_scheme \<Rightarrow> pybytes \<Rightarrow> pybytes" where
  "apply_padding scheme bs =
     (case scheme of Pkcs7 \<Rightarrow> pad bs 16 | Zero_padding n \<Rightarrow> bs @ replicate n 0)"

definition encrypt_aes :: "padding_scheme \<Rightarrow> pystr \<Rightarrow> py_error + pybytes" where
  "encrypt_aes scheme plaintext =
     (case utf8_encode plaintext of
        Inl e \<Rightarrow> Inl e
      | Inr bs \<Rightarrow> ecb_encrypt AES_KEY (apply_padding scheme bs))"

section \<open>Properties of the callback's parts\<close>

lemma check_payload_fields:
  "last_packet_time (snd (check_payload p st)) = last_packet_time st"
  "blocked_ips (snd (check_payload p st)) = blocked_ips st"
  "total_packets (snd (check_payload p st)) = total_packets st"
  "attacks_detected (snd (check_payload p st)) = attacks_detected st"
  "ips_blocked (snd (check_payload p st)) = ips_blocked st"
  "attack_log (snd (check_payload p st)) = attack_log st"
  "commands_run (snd (check_payload p st)) = commands_run st"
  by (simp_all add: check_payload_def Let_def split: option.splits)

lemma log_attack_fields:
  "last_packet_time (log_attack w ts tp n ip c st) = last_packet_time st"
  "blocked_ips (log_attack w ts tp n ip c st) = blocked_ips st"
  "total_packets (log_attack w ts tp n ip c st) = total_packets st"
  "attacks_detected (log_attack w ts tp n ip c st) = attacks_detected st"
  "ips_blocked (log_attack w ts tp n ip c st) = ips_blocked st"
  "checksum_failures (log_attack w ts tp n ip c st) = checksum_failures st"
  "commands_run (log_attack w ts tp n ip c st) = commands_run st"
  by (simp_all add: log_attack_def)

lemma on_message_last_packet_time:
  "last_packet_time (on_message ml_model scaler ev msg st) =
     snd (flow_delta (msg_topic msg) (time_now ev) (last_packet_time st))"
  by (simp add: on_message_def Let_def split_beta extract_source_ip_def check_payload_fields
      log_attack_fields split: sum.splits)

lemma on_message_blocked_ips:
  "blocked_ips (on_message ml_model scaler ev msg st) = blocked_ips st"
  by (simp add: on_message_def Let_def split_beta extract_source_ip_def check_payload_fields
      log_attack_fields split: sum.splits)

lemma on_message_ips_blocked:
  "ips_blocked (on_message ml_model scaler ev msg st) = ips_blocked st"
  by (simp add: on_message_def Let_def split_beta extract_source_ip_def check_payload_fields
      log_attack_fields split: sum.splits)

lemma on_message_commands_run:
  "commands_run (on_message ml_model scaler ev msg st) = commands_run st"
  by (simp add: on_message_def Let_def split_beta extract_source_ip_def check_payload_fields
      log_attack_fields split: sum.splits)

lemma on_message_attacks_detected:
  "attacks_detected (on_message ml_model scaler ev msg st) =
     attacks_detected st +
     (case extract_features (msg_topic msg) (length (msg_payload msg))
             (fst (flow_delta (msg_topic msg) (time_now ev) (last_packet_time st))) of
        Inl e \<Rightarrow> 0
      | Inr features \<Rightarrow> if fst (detect_intrusion ml_model scaler features) then 1 else 0)"
  by (simp add: on_message_def Let_def split_beta extract_source_ip_def check_payload_fields
      log_attack_fields split: sum.splits)

lemma on_message_attack_log:
  "attack_log (on_message ml_model scaler ev msg st) =
     attack_log st @
     (case extract_features (msg_topic msg) (length (msg_payload msg))
             (fst (flow_delta (msg_topic msg) (time_now ev) (last_packet_time st))) of
        Inl e \<Rightarrow> []
      | Inr features \<Rightarrow>
          if fst (detect_intrusion ml_model scaler features) \<and> log_writable ev
          then [\<lparr>log_timestamp = now_str ev, log_topic = msg_topic msg,
                 log_length = length (msg_payload msg), log_source_ip = None,
                 log_confidence = snd (detect_intrusion ml_model scaler features)\<rparr>]
          else [])"
  by (simp add: on_message_def Let_def split_beta extract_source_ip_def check_payload_fields
      log_attack_def split: sum.splits)

lemma on_message_checksum_failures:
  "checksum_failures (on_message ml_model scaler ev msg st) =
     checksum_failures (snd (check_payload (msg_payload msg) st))"
  by (simp add: on_message_def Let_def split_beta extract_source_ip_def
      log_attack_fields split: sum.splits)

lemma detect_intrusion_no_model: "detect_intrusion None scaler features = (False, 0)"
  by (simp add: detect_intrusion_def)

lemma ingest_loop_append:
  "ingest_loop ml_model scaler (xs @ ys) st =
     ingest_loop ml_model scaler ys (ingest_loop ml_model scaler xs st)"
  by (induction xs arbitrary: st) auto

lemma ingest_loop_enforcement_fields:
  "blocked_ips (ingest_loop ml_model scaler msgs st) = blocked_ips st \<and>
   ips_blocked (ingest_loop ml_model scaler msgs st) = ips_blocked st \<and>
   commands_run (ingest_loop ml_model scaler msgs st) = commands_run st"
  by (induction msgs arbitrary: st)
     (auto simp: on_message_blocked_ips on_message_ips_blocked on_message_commands_run)

lemma ingest_loop_log_sources:
  "\<forall>e \<in> set (attack_log st). log_source_ip e = None \<Longrightarrow>
   \<forall>e \<in> set (attack_log (ingest_loop ml_model scaler msgs st)). log_source_ip e = None"
proof (induction msgs arbitrary: st)
  case Nil
  then show ?case by simp
next
  case (Cons m msgs)
  obtain ev msg where m: "m = (ev, msg)" by (cases m)
  have "\<forall>e \<in> set (attack_log (on_message ml_model scaler ev msg st)). log_source_ip e = None"
    using Cons.prems by (auto simp: on_message_attack_log split: sum.splits)
  from Cons.IH [OF this] show ?case by (simp add: m)
qed

lemma ingest_loop_no_model_attacks:
  "attacks_detected (ingest_loop None scaler msgs st) = attacks_detected st"
  by (induction msgs arbitrary: st)
     (auto simp: on_message_attacks_detected detect_intrusion_no_model split: sum.splits)

lemma ingest_loop_other_topics:
  "\<forall>m \<in> set msgs. msg_topic (snd m) \<noteq> K \<Longrightarrow>
   last_packet_time (ingest_loop ml_model scaler msgs st) K = last_packet_time st K"
proof (induction msgs arbitrary: st)
  case Nil
  then show ?case by simp
next
  case (Cons m msgs)
  obtain ev msg where m: "m = (ev, msg)" by (cases m)
  have "last_packet_time (on_message ml_model scaler ev msg st) K = last_packet_time st K"
    using Cons.prems by (auto simp: m on_message_last_packet_time flow_delta_def)
  moreover have "\<forall>m \<in> set msgs. msg_topic (snd m) \<noteq> K"
    using Cons.prems by simp
  ultimately show ?case
    using Cons.IH [of "on_message ml_model scaler ev msg st"] by (simp add: m)
qed

lemma block_ip_counter_mono: "ips_blocked st \<le> ips_blocked (block_ip result ip st)"
  by (simp add: block_ip_def Let_def split: run_result.splits)

lemma unblock_ip_counter: "ips_blocked (unblock_ip result ip st) = ips_blocked st"
  by (simp add: unblock_ip_def Let_def split: run_result.splits)

lemma block_ip_invariant:
  "finite (blocked_ips st) \<and> card (blocked_ips st) \<le> ips_blocked st \<Longrightarrow>
   finite (blocked_ips (block_ip result ip st)) \<and>
   card (blocked_ips (block_ip result ip st)) \<le> ips_blocked (block_ip result ip st)"
  by (auto simp: block_ip_def Let_def split: run_result.splits)

lemma unblock_ip_invariant:
  "finite (blocked_ips st) \<and> card (blocked_ips st) \<le> ips_blocked st \<Longrightarrow>
   finite (blocked_ips (unblock_ip result ip st)) \<and>
   card (blocked_ips (unblock_ip result ip st)) \<le> ips_blocked (unblock_ip result ip st)"
  by (auto simp: unblock_ip_def Let_def split: run_result.splits
      intro: order_trans [OF card_Diff1_le])

lemma run_call_invariant:
  "finite (blocked_ips st) \<and> card (blocked_ips st) \<le> ips_blocked st \<Longrightarrow>
   finite (blocked_ips (run_call ml_model scaler c st)) \<and>
   card (blocked_ips (run_call ml_model scaler c st))
     \<le> ips_blocked (run_call ml_model scaler c st)"
  by (cases c)
     (simp_all add: on_message_blocked_ips on_message_ips_blocked block_ip_invariant
       unblock_ip_invariant)

lemma run_calls_invariant:
  "finite (blocked_ips st) \<and> card (blocked_ips st) \<le> ips_blocked st \<Longrightarrow>
   finite (blocked_ips (run_calls ml_model scaler cs st)) \<and>
   card (blocked_ips (run_calls ml_model scaler cs st))
     \<le> ips_blocked (run_calls ml_model scaler cs st)"
proof (induction cs arbitrary: st)
  case Nil
  then show ?case by simp
next
  case (Cons c cs)
  from Cons.IH [OF run_call_invariant [OF Cons.prems]] show ?case by simp
qed

lemma run_call_counter_mono: "ips_blocked st \<le> ips_blocked (run_call ml_model scaler c st)"
  by (cases c) (simp_all add: on_message_ips_blocked block_ip_counter_mono unblock_ip_counter)

lemma run_calls_counter_mono: "ips_blocked st \<le> ips_blocked (run_calls ml_model scaler cs st)"
proof (induction cs arbitrary: st)
  case Nil
  then show ?case by simp
next
  case (Cons c cs)
  have "ips_blocked st \<le> ips_blocked (run_call ml_model scaler c st)"
    by (rule run_call_counter_mono)
  also have "\<dots> \<le> ips_blocked (run_calls ml_model scaler cs (run_call ml_model scaler c st))"
    by (rule Cons.IH)
  finally show ?case by simp
qed


section \<open>AES decryption inverts AES encryption\<close>

lemma byte_enumeration: "(x :: byte) \<in> set (map of_nat [0..<256])"
proof -
  have "unat x < 256"
    using unsigned_less [of x] by simp
  then have "of_nat (unat x) \<in> set (map of_nat [0..<256] :: byte list)"
    by (simp del: of_nat_unat)
  then show ?thesis by simp
qed

lemma inv_sub_byte_table:
  "list_all (\<lambda>x. inv_sub_byte (sub_byte x) = x) (map of_nat [0..<256])"
  by code_simp

lemma inv_sub_byte_sub_byte: "inv_sub_byte (sub_byte x) = x"
  using inv_sub_byte_table byte_enumeration [of x] by (simp only: list_all_iff)

lemma xor_cancel_right: "(a XOR c) XOR (b XOR c) = a XOR (b::byte)"
  by (metis xor.assoc xor.commute xor_self_eq xor.right_neutral)

lemma xtime_xor: "xtime (x XOR y) = xtime x XOR xtime y"
  by (simp add: xtime_def bit_xor_iff push_bit_xor xor_cancel_right xor.assoc xor.commute xor.left_commute)

lemma xor_left_self: "a XOR (a XOR b) = (b::byte)"
  by (simp add: xor.assoc [symmetric])

lemmas xor_norm = xor.assoc xor.commute xor.left_commute xor_left_self

lemma length16_cases:
  assumes "length s = 16"
  obtains a0 a1 a2 a3 a4 a5 a6 a7 a8 a9 a10 a11 a12 a13 a14 a15
  where "s = [a0, a1, a2, a3, a4, a5, a6, a7, a8, a9, a10, a11, a12, a13, a14, a15]"
  using assms by (auto simp: numeral_eq_Suc length_Suc_conv)

lemma inv_mix_column_mix_column:
  "inv_mix_column (mix_column [a, b, c, d]) = [a, b, c, d]"
  by (simp add: inv_mix_column_def mix_column_def mul2_def mul3_def mul9_def mul11_def mul13_def
      mul14_def xtime_xor xor_norm)

lemma length_mix_column: "length (mix_column c) = 4"
  by (simp add: mix_column_def Let_def)

lemma inv_shift_rows_shift_rows: "length s = 16 \<Longrightarrow> inv_shift_rows (shift_rows s) = s"
  by (erule length16_cases) (simp add: inv_shift_rows_def shift_rows_def)

lemma inv_mix_columns_mix_columns: "length s = 16 \<Longrightarrow> inv_mix_columns (mix_columns s) = s"
  by (erule length16_cases)
     (simp add: inv_mix_columns_def mix_columns_def length_mix_column inv_mix_column_mix_column)

lemma xor_bytes_cancel: "length s \<le> length k \<Longrightarrow> xor_bytes (xor_bytes s k) k = s"
  unfolding xor_bytes_def
proof (induction s arbitrary: k)
  case Nil
  then show ?case by simp
next
  case (Cons x s)
  then show ?case by (cases k) (simp_all add: xor.assoc)
qed

lemma length_xor_bytes: "length (xor_bytes s k) = min (length s) (length k)"
  by (simp add: xor_bytes_def)

lemma length_shift_rows: "length (shift_rows s) = 16"
  by (simp add: shift_rows_def)

lemma length_mix_columns: "length (mix_columns s) = 16"
  by (simp add: mix_columns_def length_mix_column)

lemma inv_sub_bytes_sub_bytes: "inv_sub_bytes (sub_bytes s) = s"
  by (simp add: inv_sub_bytes_def sub_bytes_def inv_sub_byte_sub_byte map_idI)

lemma length_sub_bytes: "length (sub_bytes s) = length s"
  by (simp add: sub_bytes_def)

lemma inv_aes_round_aes_round:
  "length s = 16 \<Longrightarrow> length k = 16 \<Longrightarrow> inv_aes_round k (aes_round k s) = s"
  by (simp add: inv_aes_round_def aes_round_def xor_bytes_cancel length_mix_columns
      inv_mix_columns_mix_columns length_shift_rows inv_shift_rows_shift_rows length_sub_bytes
      inv_sub_bytes_sub_bytes)

lemma inv_final_round_final_round:
  "length s = 16 \<Longrightarrow> length k = 16 \<Longrightarrow> inv_final_round k (final_round k s) = s"
  by (simp add: inv_final_round_def final_round_def xor_bytes_cancel
      length_shift_rows inv_shift_rows_shift_rows length_sub_bytes inv_sub_bytes_sub_bytes)

lemma length_aes_round: "length k = 16 \<Longrightarrow> length (aes_round k s) = 16"
  by (simp add: aes_round_def length_xor_bytes length_mix_columns)

lemma length_final_round: "length k = 16 \<Longrightarrow> length (final_round k s) = 16"
  by (simp add: final_round_def length_xor_bytes length_shift_rows)

lemma inv_cipher_rounds_cipher_rounds:
  "length s = 16 \<Longrightarrow> \<forall>k \<in> set ks. length k = 16 \<Longrightarrow>
   inv_cipher_rounds ks (cipher_rounds ks s) = s"
  by (induction ks s rule: cipher_rounds.induct)
     (simp_all add: inv_final_round_final_round inv_aes_round_aes_round length_aes_round)

lemma length_cipher_rounds:
  "length s = 16 \<Longrightarrow> \<forall>k \<in> set ks. length k = 16 \<Longrightarrow> length (cipher_rounds ks s) = 16"
  by (induction ks s rule: cipher_rounds.induct)
     (simp_all add: length_final_round length_aes_round)

lemma length_next_round_key: "length k = 16 \<Longrightarrow> length (next_round_key rc k) = 16"
  by (simp add: next_round_key_def Let_def length_xor_bytes)

lemma length_key_schedule:
  "length k = 16 \<Longrightarrow> \<forall>r \<in> set (key_schedule rcs k). length r = 16"
proof (induction rcs arbitrary: k)
  case Nil
  then show ?case by simp
next
  case (Cons rc rcs)
  have "length (next_round_key rc k) = 16"
    using Cons.prems by (rule length_next_round_key)
  from Cons.IH [OF this] Cons.prems show ?case by simp
qed

lemma aes_decrypt_block_encrypt_block:
  assumes "length key = 16" "length b = 16"
  shows "aes_decrypt_block key (aes_encrypt_block key b) = b"
proof (cases "round_keys key")
  case Nil
  then show ?thesis by (simp add: round_keys_def rcon_def)
next
  case (Cons k0 ks)
  have "\<forall>r \<in> set (round_keys key). length r = 16"
    unfolding round_keys_def using assms(1) by (rule length_key_schedule)
  with Cons have k0: "length k0 = 16" and ks: "\<forall>k \<in> set ks. length k = 16" by simp_all
  have "length (xor_bytes b k0) = 16" using assms(2) k0 by (simp add: length_xor_bytes)
  then show ?thesis
    using Cons ks k0 assms(2)
    by (simp add: aes_decrypt_block_def aes_encrypt_block_def inv_cipher_rounds_cipher_rounds
        xor_bytes_cancel)
qed

lemma length_aes_encrypt_block:
  assumes "length key = 16" "length b = 16"
  shows "length (aes_encrypt_block key b) = 16"
proof (cases "round_keys key")
  case Nil
  then show ?thesis by (simp add: round_keys_def rcon_def)
next
  case (Cons k0 ks)
  have "\<forall>r \<in> set (round_keys key). length r = 16"
    unfolding round_keys_def using assms(1) by (rule length_key_schedule)
  with Cons have k0: "length k0 = 16" and ks: "\<forall>k \<in> set ks. length k = 16" by simp_all
  have "length (xor_bytes b k0) = 16" using assms(2) k0 by (simp add: length_xor_bytes)
  then show ?thesis
    using Cons ks by (simp add: aes_encrypt_block_def length_cipher_rounds)
qed

section \<open>ECB mode and padding\<close>

lemma split_blocks_Nil: "split_blocks [] = []"
  by (simp add: split_blocks.simps)

lemma split_blocks_append:
  "length b = 16 \<Longrightarrow> split_blocks (b @ r) = b # split_blocks r"
  by (subst split_blocks.simps) auto

lemma ecb_blocks_round_trip:
  "length key = 16 \<Longrightarrow> length bs mod 16 = 0 \<Longrightarrow>
   length (concat (map (aes_encrypt_block key) (split_blocks bs))) mod 16 = 0 \<and>
   concat (map (aes_decrypt_block key)
     (split_blocks (concat (map (aes_encrypt_block key) (split_blocks bs))))) = bs"
proof (induction bs rule: split_blocks.induct)
  case (1 bs)
  show ?case
  proof (cases "bs = []")
    case True
    then show ?thesis by (simp add: split_blocks_Nil)
  next
    case False
    with "1.prems"(2) have len: "16 \<le> length bs"
      by (cases "length bs < 16") auto
    then have hd16: "length (take 16 bs) = 16" by simp
    have tl16: "length (drop 16 bs) mod 16 = 0"
      using "1.prems"(2) len by (simp add: mod_eq_0_iff_dvd dvd_diff_nat)
    have sb: "split_blocks bs = take 16 bs # split_blocks (drop 16 bs)"
      using False by (subst split_blocks.simps) simp
    have enc16: "length (aes_encrypt_block key (take 16 bs)) = 16"
      using "1.prems"(1) hd16 by (rule length_aes_encrypt_block)
    have ih: "length (concat (map (aes_encrypt_block key) (split_blocks (drop 16 bs)))) mod 16 = 0 \<and>
      concat (map (aes_decrypt_block key)
        (split_blocks (concat (map (aes_encrypt_block key) (split_blocks (drop 16 bs))))))
        = drop 16 bs"
      using "1.IH" [OF False "1.prems"(1) tl16] .
    have dec: "aes_decrypt_block key (aes_encrypt_block key (take 16 bs)) = take 16 bs"
      using "1.prems"(1) hd16 by (rule aes_decrypt_block_encrypt_block)
    show ?thesis
      using ih enc16 dec by (simp add: sb split_blocks_append)
  qed
qed

lemma ecb_decrypt_encrypt:
  assumes "length key = 16" "ecb_encrypt key plaintext = Inr ciphertext"
  shows "ecb_decrypt key ciphertext = Inr plaintext"
proof -
  from assms(2) have al: "length plaintext mod 16 = 0"
    and ct: "ciphertext = concat (map (aes_encrypt_block key) (split_blocks plaintext))"
    by (auto simp: ecb_encrypt_def split: if_splits)
  from ecb_blocks_round_trip [OF assms(1) al] show ?thesis
    by (simp add: ecb_decrypt_def ct)
qed

lemma length_AES_KEY: "length AES_KEY = 16"
  by (simp add: AES_KEY_def)

lemma byte_of_nat: "n < 256 \<Longrightarrow> unat (of_nat n :: byte) = n"
  by (simp add: unat_of_nat)

lemma length_pad: "length (pad bs 16) mod 16 = 0"
proof -
  have "(length bs + (16 - length bs mod 16)) mod 16 = 0"
    by presburger
  then show ?thesis by (simp add: pad_def Let_def)
qed

lemma unpad_pad: "unpad (pad bs 16) 16 = Inr bs"
proof -
  define n where "n = 16 - length bs mod 16"
  have n: "1 \<le> n" "n \<le> 16" by (simp_all add: n_def)
  have p: "pad bs 16 = bs @ replicate n (of_nat n)"
    by (simp add: pad_def n_def)
  have al: "(length bs + n) mod 16 = 0"
    unfolding n_def by presburger
  have lst: "last (bs @ replicate n (of_nat n :: byte)) = of_nat n"
    using n by (cases n) simp_all
  have un: "unat (of_nat n :: byte) = n"
    using n by (simp add: byte_of_nat)
  show ?thesis
    using n al by (simp add: unpad_def p lst un Let_def)
qed




section \<open>UTF-8 decoding inverts encoding\<close>

lemma utf8_decode_first_encode:
  assumes "utf8_encode_cp c = Inr bs"
  shows "utf8_decode_first (bs @ rest) = Inr (c, length bs) \<and> bs \<noteq> []"
proof -
  consider (one) "c < 0x80"
    | (two) "0x80 \<le> c" "c < 0x800"
    | (three) "0x800 \<le> c" "c < 0x10000" "\<not> (0xD800 \<le> c \<and> c < 0xE000)"
    | (four) "0x10000 \<le> c" "c < 0x110000"
    using assms by (cases "c < 0x80"; cases "c < 0x800"; cases "c < 0x10000";
        cases "c < 0x110000"; simp add: utf8_encode_cp_def split: if_splits)
  then show ?thesis
  proof cases
    case one
    have bs: "bs = [of_nat c]"
      using assms one by (simp add: utf8_encode_cp_def)
    have u: "unat (of_nat c :: byte) = c"
      using one by (simp add: byte_of_nat)
    show ?thesis
      using one by (simp add: bs utf8_decode_first_def u Let_def)
  next
    case two
    define h where "h = c div 64"
    define l where "l = c mod 64"
    have c_eq: "c = h * 64 + l" by (simp add: h_def l_def)
    have "128 div 64 \<le> c div 64" using two(1) by (intro div_le_mono) simp
    moreover have "c div 64 < 32" using two(2) by (intro less_mult_imp_div_less) simp
    ultimately have hb: "2 \<le> h" "h < 32" by (simp_all add: h_def)
    have lb: "l < 64" by (simp add: l_def)
    have bs: "bs = [of_nat (192 + h), of_nat (128 + l)]"
      using assms two by (simp add: utf8_encode_cp_def h_def l_def)
    have u0: "unat (of_nat (192 + h) :: byte) = 192 + h"
      using hb by (intro byte_of_nat) simp
    have u1: "unat (of_nat (128 + l) :: byte) = 128 + l"
      using lb by (intro byte_of_nat) simp
    have "utf8_decode_first ([of_nat (192 + h), of_nat (128 + l)] @ rest) = Inr (c, 2)"
      unfolding utf8_decode_first_def is_continuation_def
      using hb lb by (simp only: u0 u1 list.case append_Cons append_Nil Let_def) (simp add: c_eq)
    then show ?thesis by (simp add: bs)
  next
    case three
    define h where "h = c div 4096"
    define m where "m = c div 64 mod 64"
    define l where "l = c mod 64"
    have hd: "c div 4096 = c div 64 div 64"
      using div_mult2_eq [of c 64 64] by simp
    have "c = c div 64 * 64 + l" by (simp add: l_def)
    moreover have "c div 64 = h * 64 + m" by (simp add: h_def m_def hd)
    ultimately have "c = (h * 64 + m) * 64 + l" by simp
    then have c_eq: "c = h * 4096 + m * 64 + l" by (simp add: algebra_simps)
    have hb: "h < 16" unfolding h_def using three(2) by (intro less_mult_imp_div_less) simp
    have mb: "m < 64" by (simp add: m_def)
    have lb: "l < 64" by (simp add: l_def)
    have bs: "bs = [of_nat (224 + h), of_nat (128 + m), of_nat (128 + l)]"
      using assms three by (simp add: utf8_encode_cp_def h_def m_def l_def)
    have u0: "unat (of_nat (224 + h) :: byte) = 224 + h"
      using hb by (intro byte_of_nat) simp
    have u1: "unat (of_nat (128 + m) :: byte) = 128 + m"
      using mb by (intro byte_of_nat) simp
    have u2: "unat (of_nat (128 + l) :: byte) = 128 + l"
      using lb by (intro byte_of_nat) simp
    have "utf8_decode_first ([of_nat (224 + h), of_nat (128 + m), of_nat (128 + l)] @ rest)
            = Inr (c, 3)"
      unfolding utf8_decode_first_def is_continuation_def
      using hb mb lb three
      by (simp only: u0 u1 u2 list.case append_Cons append_Nil Let_def) (simp add: c_eq)
    then show ?thesis by (simp add: bs)
  next
    case four
    define h where "h = c div 262144"
    define m where "m = c div 4096 mod 64"
    define k where "k = c div 64 mod 64"
    define l where "l = c mod 64"
    have hd1: "c div 4096 = c div 64 div 64"
      using div_mult2_eq [of c 64 64] by simp
    have hd2: "c div 262144 = c div 64 div 64 div 64"
      using div_mult2_eq [of c 4096 64] by (simp add: hd1)
    have "c = c div 64 * 64 + l" by (simp add: l_def)
    moreover have "c div 64 = c div 64 div 64 * 64 + k" by (simp add: k_def)
    moreover have "c div 64 div 64 = h * 64 + m" by (simp add: h_def m_def hd1 hd2)
    ultimately have "c = ((h * 64 + m) * 64 + k) * 64 + l" by simp
    then have c_eq: "c = h * 262144 + m * 4096 + k * 64 + l" by (simp add: algebra_simps)
    have hb: "h < 5" unfolding h_def using four(2) by (intro less_mult_imp_div_less) simp
    have mb: "m < 64" by (simp add: m_def)
    have kb: "k < 64" by (simp add: k_def)
    have lb: "l < 64" by (simp add: l_def)
    have bs: "bs = [of_nat (240 + h), of_nat (128 + m), of_nat (128 + k), of_nat (128 + l)]"
      using assms four by (simp add: utf8_encode_cp_def h_def m_def k_def l_def)
    have u0: "unat (of_nat (240 + h) :: byte) = 240 + h"
      using hb by (intro byte_of_nat) simp
    have u1: "unat (of_nat (128 + m) :: byte) = 128 + m"
      using mb by (intro byte_of_nat) simp
    have u2: "unat (of_nat (128 + k) :: byte) = 128 + k"
      using kb by (intro byte_of_nat) simp
    have u3: "unat (of_nat (128 + l) :: byte) = 128 + l"
      using lb by (intro byte_of_nat) simp
    have "utf8_decode_first
            ([of_nat (240 + h), of_nat (128 + m), of_nat (128 + k), of_nat (128 + l)] @ rest)
            = Inr (c, 4)"
      unfolding utf8_decode_first_def is_continuation_def
      using hb mb kb lb four
      by (simp only: u0 u1 u2 u3 list.case append_Cons append_Nil Let_def) (simp add: c_eq)
    then show ?thesis by (simp add: bs)
  qed
qed

lemma utf8_decode_encode: "utf8_encode s = Inr bs \<Longrightarrow> utf8_decode bs = Inr s"
proof (induction s arbitrary: bs)
  case Nil
  then show ?case by (simp add: utf8_decode.simps)
next
  case (Cons c cs)
  from Cons.prems obtain b r where b: "utf8_encode_cp c = Inr b"
    and r: "utf8_encode cs = Inr r" and bs: "bs = b @ r"
    by (auto split: sum.splits)
  from utf8_decode_first_encode [OF b, of r]
  have first: "utf8_decode_first (b @ r) = Inr (c, length b)" and ne: "b \<noteq> []"
    by simp_all
  have "utf8_decode r = Inr cs" using r by (rule Cons.IH)
  then show ?case
    unfolding bs by (subst utf8_decode.simps) (simp add: first ne)
qed


lemma utf8_encode_ascii: "\<forall>c \<in> set s. c < 128 \<Longrightarrow> utf8_encode s = Inr (map of_nat s)"
  by (induction s) (simp_all add: utf8_encode_cp_def)

section \<open>The checksum text and the splitting of the plaintext\<close>









section \<open>Decrypting what the sender encrypted\<close>

lemma decrypt_aes_of_encrypt_pkcs7:
  assumes "encrypt_aes Pkcs7 s = Inr ct"
  shows "decrypt_aes ct = Some s"
proof -
  from assms obtain bs where bs: "utf8_encode s = Inr bs"
    and e: "ecb_encrypt AES_KEY (pad bs 16) = Inr ct"
    by (auto simp: encrypt_aes_def apply_padding_def split: sum.splits)
  have d: "ecb_decrypt AES_KEY ct = Inr (pad bs 16)"
    using length_AES_KEY e by (rule ecb_decrypt_encrypt)
  show ?thesis
    by (simp add: decrypt_aes_def d unpad_pad utf8_decode_encode [OF bs])
qed

lemma encrypt_aes_pkcs7_total:
  "utf8_encode s = Inr bs \<Longrightarrow> \<exists>ct. encrypt_aes Pkcs7 s = Inr ct"
  by (simp add: encrypt_aes_def apply_padding_def ecb_encrypt_def length_pad)




section \<open>The claims\<close>

text \<open>
  C2, flow timing. On the first observation of a topic the elapsed time is 0; when the
  topic was last seen at \<open>t1\<close> the elapsed time at \<open>t2\<close> is \<open>t2 - t1\<close>, and the topic's
  last-seen time becomes \<open>t2\<close> while every other topic keeps its own. In the callback the
  table is updated exactly so, a topic never seen since the start has no entry, and
  messages on other topics between two observations of a topic leave its entry alone.
\<close>

theorem flow_timing_contract:
  "(last_seen K = None \<longrightarrow> fst (flow_delta K t2 last_seen) = 0) \<and>
   (last_seen K = Some t1 \<longrightarrow> fst (flow_delta K t2 last_seen) = t2 - t1) \<and>
   snd (flow_delta K t2 last_seen) K = Some t2 \<and>
   (\<forall>K'. K' \<noteq> K \<longrightarrow> snd (flow_delta K t2 last_seen) K' = last_seen K') \<and>
   last_packet_time (on_message ml_model scaler ev msg st) =
     snd (flow_delta (msg_topic msg) (time_now ev) (last_packet_time st)) \<and>
   ((\<forall>m \<in> set msgs. msg_topic (snd m) \<noteq> K) \<longrightarrow>
      last_packet_time (ingest_loop ml_model scaler msgs initial_state) K = None) \<and>
   (msg_topic msg = K \<and> (\<forall>m \<in> set msgs. msg_topic (snd m) \<noteq> K) \<longrightarrow>
      fst (flow_delta K t2
             (last_packet_time
                (ingest_loop ml_model scaler msgs (on_message ml_model scaler ev msg st))))
        = t2 - time_now ev)"
proof -
  have first: "last_seen K = None \<longrightarrow> fst (flow_delta K t2 last_seen) = 0"
    by (simp add: flow_delta_def)
  have second: "last_seen K = Some t1 \<longrightarrow> fst (flow_delta K t2 last_seen) = t2 - t1"
    by (simp add: flow_delta_def)
  have upd: "snd (flow_delta K t2 last_seen) K = Some t2"
    by (simp add: flow_delta_def)
  have others: "\<forall>K'. K' \<noteq> K \<longrightarrow> snd (flow_delta K t2 last_seen) K' = last_seen K'"
    by (simp add: flow_delta_def)
  have fresh: "(\<forall>m \<in> set msgs. msg_topic (snd m) \<noteq> K) \<longrightarrow>
      last_packet_time (ingest_loop ml_model scaler msgs initial_state) K = None"
    by (simp add: ingest_loop_other_topics initial_state_def)
  have loop: "msg_topic msg = K \<and> (\<forall>m \<in> set msgs. msg_topic (snd m) \<noteq> K) \<longrightarrow>
      fst (flow_delta K t2
             (last_packet_time
                (ingest_loop ml_model scaler msgs (on_message ml_model scaler ev msg st))))
        = t2 - time_now ev"
  proof
    assume a: "msg_topic msg = K \<and> (\<forall>m \<in> set msgs. msg_topic (snd m) \<noteq> K)"
    then have "last_packet_time
                 (ingest_loop ml_model scaler msgs (on_message ml_model scaler ev msg st)) K
               = last_packet_time (on_message ml_model scaler ev msg st) K"
      by (simp add: ingest_loop_other_topics)
    also have "\<dots> = Some (time_now ev)"
      using a by (simp add: on_message_last_packet_time flow_delta_def)
    finally show "fst (flow_delta K t2
             (last_packet_time
                (ingest_loop ml_model scaler msgs (on_message ml_model scaler ev msg st))))
        = t2 - time_now ev"
      by (simp add: flow_delta_def)
  qed
  from first second upd others on_message_last_packet_time fresh loop show ?thesis
    by blast
qed

theorem flow_timing_contract_witness:
  "fst (flow_delta (str ''home/temp'') 12 Map.empty) = 0 \<and>
   fst (flow_delta (str ''home/temp'') 12 [str ''home/temp'' \<mapsto> 10]) = 2 \<and>
   snd (flow_delta (str ''home/temp'') 12 [str ''home/temp'' \<mapsto> 10]) (str ''home/temp'')
     = Some 12 \<and>
   last_packet_time
     (ingest_loop None None
        [(\<lparr>time_now = 11, now_str = [], iptables_result = Run_raises, log_writable = True\<rparr>,
          \<lparr>msg_topic = str ''home/hum'', msg_payload = []\<rparr>)]
        initial_state) (str ''home/temp'') = None \<and>
   fst (flow_delta (str ''home/temp'') 12
          (last_packet_time
             (ingest_loop None None
                [(\<lparr>time_now = 11, now_str = [], iptables_result = Run_raises,
                    log_writable = True\<rparr>,
                  \<lparr>msg_topic = str ''home/hum'', msg_payload = []\<rparr>)]
                (on_message None None
                   \<lparr>time_now = 10, now_str = [], iptables_result = Run_raises,
                     log_writable = True\<rparr>
                   \<lparr>msg_topic = str ''home/temp'', msg_payload = []\<rparr> initial_state)))) = 2"
  using flow_timing_contract [where last_seen = "[str ''home/temp'' \<mapsto> 10]"
      and K = "str ''home/temp''" and ?t2.0 = 12 and ?t1.0 = 10
      and ml_model = None and scaler = None
      and ev = "\<lparr>time_now = 10, now_str = [], iptables_result = Run_raises,
                 log_writable = True\<rparr>"
      and msg = "\<lparr>msg_topic = str ''home/temp'', msg_payload = []\<rparr>"
      and st = initial_state
      and msgs = "[(\<lparr>time_now = 11, now_str = [], iptables_result = Run_raises,
                     log_writable = True\<rparr>,
                   \<lparr>msg_topic = str ''home/hum'', msg_payload = []\<rparr>)]"]
    flow_timing_contract [where last_seen = Map.empty
      and K = "str ''home/temp''" and ?t2.0 = 12 and ?t1.0 = 10
      and ml_model = None and scaler = None
      and ev = "\<lparr>time_now = 10, now_str = [], iptables_result = Run_raises,
                 log_writable = True\<rparr>"
      and msg = "\<lparr>msg_topic = str ''home/temp'', msg_payload = []\<rparr>"
      and st = initial_state and msgs = "[]"]
  by (simp add: str_def)

text \<open>
  C3, decision rule. When the classifier answers with a label and the probability it
  gives that label, the detection reports an attack exactly when the label is 1 and the
  probability is at least the threshold, which is 0.5: at the threshold it is an attack,
  below it it is not.
\<close>

theorem detect_intrusion_decision_rule:
  assumes "(case scaler of None \<Rightarrow> Some features | Some sc \<Rightarrow> sc features) = Some fs"
    and "predict m fs = Some label"
    and "predict_proba m fs = Some probabilities"
    and "py_index probabilities label = Inr confidence"
  shows "detect_intrusion (Some m) scaler features
           = (label = 1 \<and> confidence \<ge> DETECTION_THRESHOLD, confidence) \<and>
         DETECTION_THRESHOLD = 0.5 \<and>
         (label = 1 \<and> confidence = DETECTION_THRESHOLD
            \<longrightarrow> fst (detect_intrusion (Some m) scaler features)) \<and>
         (confidence < DETECTION_THRESHOLD
            \<longrightarrow> \<not> fst (detect_intrusion (Some m) scaler features))"
proof -
  have "detect_intrusion (Some m) scaler features
          = (label = 1 \<and> confidence \<ge> DETECTION_THRESHOLD, confidence)"
    using assms by (simp add: detect_intrusion_def Let_def)
  then show ?thesis by (simp add: DETECTION_THRESHOLD_def)
qed

theorem detect_intrusion_decision_rule_witness:
  "detect_intrusion
     (Some \<lparr>predict = (\<lambda>x. Some 1), predict_proba = (\<lambda>x. Some [0.5, 0.5])\<rparr>) None
     [[32, 0, 9, 1000, 32]] = (True, 0.5) \<and>
   detect_intrusion
     (Some \<lparr>predict = (\<lambda>x. Some 1), predict_proba = (\<lambda>x. Some [0.51, 0.49])\<rparr>) None
     [[32, 0, 9, 1000, 32]] = (False, 0.49)"
proof -
  have sc: "(case (None :: scaler option) of None \<Rightarrow> Some [[32, 0, 9, 1000, 32]]
             | Some sc \<Rightarrow> sc [[32, 0, 9, 1000, 32]]) = Some [[32, 0, 9, 1000, 32]]"
    by simp
  have p1: "predict \<lparr>predict = (\<lambda>x. Some 1), predict_proba = (\<lambda>x. Some [0.5, 0.5])\<rparr>
              [[32, 0, 9, 1000, 32]] = Some 1"
    by simp
  have q1: "predict_proba \<lparr>predict = (\<lambda>x. Some 1), predict_proba = (\<lambda>x. Some [0.5, 0.5])\<rparr>
              [[32, 0, 9, 1000, 32]] = Some [0.5, 0.5]"
    by simp
  have i1: "py_index [0.5, 0.5 :: real] 1 = Inr 0.5"
    by (simp add: py_index_def)
  have p2: "predict \<lparr>predict = (\<lambda>x. Some 1), predict_proba = (\<lambda>x. Some [0.51, 0.49])\<rparr>
              [[32, 0, 9, 1000, 32]] = Some 1"
    by simp
  have q2: "predict_proba \<lparr>predict = (\<lambda>x. Some 1), predict_proba = (\<lambda>x. Some [0.51, 0.49])\<rparr>
              [[32, 0, 9, 1000, 32]] = Some [0.51, 0.49]"
    by simp
  have i2: "py_index [0.51, 0.49 :: real] 1 = Inr 0.49"
    by (simp add: py_index_def)
  have a: "detect_intrusion
     (Some \<lparr>predict = (\<lambda>x. Some 1), predict_proba = (\<lambda>x. Some [0.5, 0.5])\<rparr>) None
     [[32, 0, 9, 1000, 32]] = (True, 0.5)"
    using detect_intrusion_decision_rule [OF sc p1 q1 i1]
    by (simp add: DETECTION_THRESHOLD_def)
  have b: "detect_intrusion
     (Some \<lparr>predict = (\<lambda>x. Some 1), predict_proba = (\<lambda>x. Some [0.51, 0.49])\<rparr>) None
     [[32, 0, 9, 1000, 32]] = (False, 0.49)"
    using detect_intrusion_decision_rule [OF sc p2 q2 i2]
    by (simp add: DETECTION_THRESHOLD_def)
  from a b show ?thesis by (rule conjI)
qed

text \<open>
  C4, fail-open. With no classifier loaded the detection answers benign with confidence
  0 for every feature vector, and however many messages the loop processes, the count of
  detected attacks stays what it was: 0 from the start.
\<close>

theorem fail_open_without_classifier:
  "detect_intrusion None scaler features = (False, 0) \<and>
   attacks_detected (ingest_loop None scaler msgs st) = attacks_detected st \<and>
   attacks_detected (ingest_loop None scaler msgs initial_state) = 0"
  by (simp add: detect_intrusion_no_model ingest_loop_no_model_attacks initial_state_def)

text \<open>
  C5, block idempotence as the code has it. Blocking a source that is already in the
  blocked set changes nothing and runs no command. Blocking a source that is not in the
  set, with the firewall command succeeding, and then blocking it again leaves the source
  in the set, the counter one higher and exactly one command run.
\<close>

theorem block_ip_idempotent:
  "(S \<in> blocked_ips st \<longrightarrow> block_ip r S st = st) \<and>
   (S \<notin> blocked_ips st \<longrightarrow>
      blocked_ips (block_ip r S (block_ip (Returncode 0) S st)) = insert S (blocked_ips st) \<and>
      ips_blocked (block_ip r S (block_ip (Returncode 0) S st)) = ips_blocked st + 1 \<and>
      commands_run (block_ip r S (block_ip (Returncode 0) S st)) =
        commands_run st @ [str ''sudo iptables -A INPUT -s '' @ S @ str '' -j DROP''])"
  by (simp add: block_ip_def Let_def)

theorem block_ip_idempotent_witness:
  "block_ip (Returncode 0) (str ''10.0.0.5'')
     (initial_state\<lparr>blocked_ips := {str ''10.0.0.5''}\<rparr>)
     = initial_state\<lparr>blocked_ips := {str ''10.0.0.5''}\<rparr> \<and>
   blocked_ips (block_ip (Returncode 0) (str ''10.0.0.5'')
                  (block_ip (Returncode 0) (str ''10.0.0.5'') initial_state))
     = {str ''10.0.0.5''} \<and>
   ips_blocked (block_ip (Returncode 0) (str ''10.0.0.5'')
                  (block_ip (Returncode 0) (str ''10.0.0.5'') initial_state)) = 1 \<and>
   length (commands_run (block_ip (Returncode 0) (str ''10.0.0.5'')
                  (block_ip (Returncode 0) (str ''10.0.0.5'') initial_state))) = 1"
  using block_ip_idempotent [where S = "str ''10.0.0.5''"
      and st = "initial_state\<lparr>blocked_ips := {str ''10.0.0.5''}\<rparr>" and r = "Returncode 0"]
    block_ip_idempotent [where S = "str ''10.0.0.5''" and st = initial_state
      and r = "Returncode 0"]
  by (simp add: initial_state_def)

text \<open>
  C5 as stated fails: when the firewall command fails, two successive blocks of a source
  leave it out of the blocked set, count nothing and run the command twice.
\<close>

theorem block_ip_twice_counterexample:
  "str ''10.0.0.5'' \<notin> blocked_ips (block_ip (Returncode 1) (str ''10.0.0.5'')
                  (block_ip (Returncode 1) (str ''10.0.0.5'') initial_state)) \<and>
   ips_blocked (block_ip (Returncode 1) (str ''10.0.0.5'')
                  (block_ip (Returncode 1) (str ''10.0.0.5'') initial_state)) = 0 \<and>
   length (commands_run (block_ip (Returncode 1) (str ''10.0.0.5'')
                  (block_ip (Returncode 1) (str ''10.0.0.5'') initial_state))) = 2"
  by (simp add: block_ip_def Let_def initial_state_def)

text \<open>
  C7, feature order as the code has it. Whenever \<open>elapsed + 0.001\<close> is not zero, so for
  every elapsed time that is not negative, the extraction returns the one-row matrix of
  payload length, elapsed time, topic length, \<open>1 / (elapsed + 0.001)\<close> and payload length
  again, in this order.
\<close>

theorem extract_features_order:
  assumes "elapsed + 0.001 \<noteq> 0"
  shows "extract_features topic payload_length elapsed =
           Inr [[real payload_length, elapsed, real (length topic),
                 1 / (elapsed + 0.001), real payload_length]]"
  using assms by (simp add: extract_features_def Let_def)

theorem extract_features_order_witness:
  "extract_features (str ''home/temp'') 32 0 = Inr [[32, 0, 9, 1000, 32]]"
  using extract_features_order [where elapsed = 0 and topic = "str ''home/temp''"
      and payload_length = 32]
  by (simp add: str_def)

text \<open>
  C7 as stated fails for the elapsed time \<open>-0.001\<close>: the division raises and no vector is
  returned.
\<close>

theorem extract_features_order_counterexample:
  "extract_features (str ''home/temp'') 32 (- 0.001) = Inl ZeroDivisionError"
  by (simp add: extract_features_def)

text \<open>
  C8, feature finiteness. For every elapsed time that is not negative the extraction
  raises nothing and returns the five features, the rate among them being the inverse of
  a divisor of at least 0.001, hence positive and at most 1000. The added 0.001 is all
  that keeps the divisor from zero: the extraction raises exactly when
  \<open>elapsed + 0.001 = 0\<close>.
\<close>

theorem extract_features_finite:
  "(0 \<le> elapsed \<longrightarrow>
      (\<exists>rate. extract_features topic payload_length elapsed =
                 Inr [[real payload_length, elapsed, real (length topic), rate,
                       real payload_length]]
              \<and> rate * (elapsed + 0.001) = 1 \<and> 0 < rate \<and> rate \<le> 1000)) \<and>
   ((\<exists>e. extract_features topic payload_length t = Inl e) \<longleftrightarrow> t + 0.001 = 0)"
proof -
  have a: "0 \<le> elapsed \<longrightarrow>
      (\<exists>rate. extract_features topic payload_length elapsed =
                 Inr [[real payload_length, elapsed, real (length topic), rate,
                       real payload_length]]
              \<and> rate * (elapsed + 0.001) = 1 \<and> 0 < rate \<and> rate \<le> 1000)"
  proof
    assume e: "0 \<le> elapsed"
    then have pos: "0 < elapsed + 0.001" by simp
    have le: "1 / (elapsed + 0.001) \<le> 1000"
      using e pos by (simp add: field_simps)
    show "\<exists>rate. extract_features topic payload_length elapsed =
                 Inr [[real payload_length, elapsed, real (length topic), rate,
                       real payload_length]]
              \<and> rate * (elapsed + 0.001) = 1 \<and> 0 < rate \<and> rate \<le> 1000"
    proof (intro exI conjI)
      show "extract_features topic payload_length elapsed =
              Inr [[real payload_length, elapsed, real (length topic),
                    1 / (elapsed + 0.001), real payload_length]]"
        using pos by (simp add: extract_features_def)
      show "1 / (elapsed + 0.001) * (elapsed + 0.001) = 1" using pos by simp
      show "0 < 1 / (elapsed + 0.001)" using pos by simp
      show "1 / (elapsed + 0.001) \<le> 1000" by (rule le)
    qed
  qed
  have b: "(\<exists>e. extract_features topic payload_length t = Inl e) \<longleftrightarrow> t + 0.001 = 0"
    by (auto simp: extract_features_def Let_def)
  from a b show ?thesis by blast
qed

theorem extract_features_finite_witness:
  "(\<exists>rate. extract_features (str ''home/temp'') 32 0 = Inr [[32, 0, 9, rate, 32]]
          \<and> rate * 0.001 = 1 \<and> 0 < rate \<and> rate \<le> 1000) \<and>
   (\<exists>e. extract_features (str ''home/temp'') 32 (- 0.001) = Inl e)"
  using extract_features_finite [where elapsed = 0 and topic = "str ''home/temp''"
      and payload_length = 32 and t = "- 0.001"]
  by (simp add: str_def)

text \<open>
  C9, enforcement is unreachable from the loop. The source extraction answers \<open>None\<close> for
  every message, so from the initial state the loop never blocks anything: after any
  messages, whatever the classifier, the blocked set is empty, the blocked counter is 0
  and no firewall command has been run. Every line of the attack log carries no source,
  and a message detected as an attack, with the log writable, appends such a line.
\<close>

theorem enforcement_unreachable:
  "extract_source_ip msg = None \<and>
   blocked_ips (ingest_loop ml_model scaler msgs initial_state) = {} \<and>
   ips_blocked (ingest_loop ml_model scaler msgs initial_state) = 0 \<and>
   commands_run (ingest_loop ml_model scaler msgs initial_state) = [] \<and>
   (\<forall>e \<in> set (attack_log (ingest_loop ml_model scaler msgs initial_state)).
      log_source_ip e = None) \<and>
   (extract_features (msg_topic msg) (length (msg_payload msg))
        (fst (flow_delta (msg_topic msg) (time_now ev) (last_packet_time st))) = Inr features
      \<and> fst (detect_intrusion ml_model scaler features) \<and> log_writable ev \<longrightarrow>
    attack_log (on_message ml_model scaler ev msg st) =
      attack_log st @
        [\<lparr>log_timestamp = now_str ev, log_topic = msg_topic msg,
          log_length = length (msg_payload msg), log_source_ip = None,
          log_confidence = snd (detect_intrusion ml_model scaler features)\<rparr>])"
proof -
  have src: "extract_source_ip msg = None"
    by (simp add: extract_source_ip_def)
  have fields: "blocked_ips (ingest_loop ml_model scaler msgs initial_state) = {} \<and>
     ips_blocked (ingest_loop ml_model scaler msgs initial_state) = 0 \<and>
     commands_run (ingest_loop ml_model scaler msgs initial_state) = []"
    by (simp add: ingest_loop_enforcement_fields initial_state_def)
  have "\<forall>e \<in> set (attack_log initial_state). log_source_ip e = None"
    by (simp add: initial_state_def)
  then have log: "\<forall>e \<in> set (attack_log (ingest_loop ml_model scaler msgs initial_state)).
      log_source_ip e = None"
    by (rule ingest_loop_log_sources)
  have entry: "extract_features (msg_topic msg) (length (msg_payload msg))
        (fst (flow_delta (msg_topic msg) (time_now ev) (last_packet_time st))) = Inr features
      \<and> fst (detect_intrusion ml_model scaler features) \<and> log_writable ev \<longrightarrow>
    attack_log (on_message ml_model scaler ev msg st) =
      attack_log st @
        [\<lparr>log_timestamp = now_str ev, log_topic = msg_topic msg,
          log_length = length (msg_payload msg), log_source_ip = None,
          log_confidence = snd (detect_intrusion ml_model scaler features)\<rparr>]"
    by (simp add: on_message_attack_log)
  from src fields log entry show ?thesis by blast
qed

theorem enforcement_unreachable_witness:
  "blocked_ips
     (ingest_loop (Some \<lparr>predict = (\<lambda>x. Some 1), predict_proba = (\<lambda>x. None)\<rparr>) None
        [(\<lparr>time_now = 10, now_str = str ''2024-01-01 00:00:10'',
            iptables_result = Returncode 0, log_writable = True\<rparr>,
          \<lparr>msg_topic = str ''home/temp'', msg_payload = []\<rparr>)] initial_state) = {} \<and>
   ips_blocked
     (ingest_loop (Some \<lparr>predict = (\<lambda>x. Some 1), predict_proba = (\<lambda>x. None)\<rparr>) None
        [(\<lparr>time_now = 10, now_str = str ''2024-01-01 00:00:10'',
            iptables_result = Returncode 0, log_writable = True\<rparr>,
          \<lparr>msg_topic = str ''home/temp'', msg_payload = []\<rparr>)] initial_state) = 0 \<and>
   attack_log
     (on_message (Some \<lparr>predict = (\<lambda>x. Some 1), predict_proba = (\<lambda>x. None)\<rparr>) None
        \<lparr>time_now = 10, now_str = str ''2024-01-01 00:00:10'',
          iptables_result = Returncode 0, log_writable = True\<rparr>
        \<lparr>msg_topic = str ''home/temp'', msg_payload = []\<rparr> initial_state)
     = [\<lparr>log_timestamp = str ''2024-01-01 00:00:10'', log_topic = str ''home/temp'',
         log_length = 0, log_source_ip = None, log_confidence = 1\<rparr>]"
proof -
  let ?M = "Some \<lparr>predict = (\<lambda>x. Some 1), predict_proba = (\<lambda>x. None)\<rparr>"
  let ?EV = "\<lparr>time_now = 10, now_str = str ''2024-01-01 00:00:10'',
              iptables_result = Returncode 0, log_writable = True\<rparr>"
  let ?MSG = "\<lparr>msg_topic = str ''home/temp'', msg_payload = []\<rparr>"
  let ?F = "[[0, 0, 9, 1000, 0 :: real]]"
  note t = enforcement_unreachable [where msg = ?MSG and ml_model = ?M and scaler = None
      and msgs = "[(?EV, ?MSG)]" and ev = ?EV and st = initial_state and features = ?F]
  have ef: "extract_features (msg_topic ?MSG) (length (msg_payload ?MSG))
        (fst (flow_delta (msg_topic ?MSG) (time_now ?EV) (last_packet_time initial_state)))
        = Inr ?F"
    by (simp add: extract_features_def flow_delta_def initial_state_def str_def)
  have di: "detect_intrusion ?M None ?F = (True, 1)"
    by (simp add: detect_intrusion_def DETECTION_THRESHOLD_def)
  have a: "blocked_ips (ingest_loop ?M None [(?EV, ?MSG)] initial_state) = {}"
    using t by (elim conjE)
  have b: "ips_blocked (ingest_loop ?M None [(?EV, ?MSG)] initial_state) = 0"
    using t by (elim conjE)
  have imp: "extract_features (msg_topic ?MSG) (length (msg_payload ?MSG))
        (fst (flow_delta (msg_topic ?MSG) (time_now ?EV) (last_packet_time initial_state)))
        = Inr ?F
      \<and> fst (detect_intrusion ?M None ?F) \<and> log_writable ?EV \<longrightarrow>
    attack_log (on_message ?M None ?EV ?MSG initial_state) =
      attack_log initial_state @
        [\<lparr>log_timestamp = now_str ?EV, log_topic = msg_topic ?MSG,
          log_length = length (msg_payload ?MSG), log_source_ip = None,
          log_confidence = snd (detect_intrusion ?M None ?F)\<rparr>]"
    using t by (elim conjE)
  have "fst (detect_intrusion ?M None ?F) \<and> log_writable ?EV"
    by (simp add: di)
  with ef imp have "attack_log (on_message ?M None ?EV ?MSG initial_state) =
      attack_log initial_state @
        [\<lparr>log_timestamp = now_str ?EV, log_topic = msg_topic ?MSG,
          log_length = length (msg_payload ?MSG), log_source_ip = None,
          log_confidence = snd (detect_intrusion ?M None ?F)\<rparr>]"
    by blast
  then have c: "attack_log (on_message ?M None ?EV ?MSG initial_state)
     = [\<lparr>log_timestamp = str ''2024-01-01 00:00:10'', log_topic = str ''home/temp'',
         log_length = 0, log_source_ip = None, log_confidence = 1\<rparr>]"
    by (simp add: di initial_state_def)
  from a b c show ?thesis by blast
qed

text \<open>
  C10, the blocked counter as the code has it. From the initial state, after any calls of
  the callback, of block and of unblock, the blocked set is finite and has at most as many
  members as the counter says; no call lowers the counter, and an unblock leaves it as it
  is. A successful unblock of a source that is in the set removes it, and then the set
  has fewer members than the counter says.
\<close>

theorem blocked_count_monotone:
  "finite (blocked_ips (run_calls ml_model scaler cs initial_state)) \<and>
   card (blocked_ips (run_calls ml_model scaler cs initial_state))
     \<le> ips_blocked (run_calls ml_model scaler cs initial_state) \<and>
   ips_blocked st \<le> ips_blocked (run_call ml_model scaler c st) \<and>
   ips_blocked (unblock_ip r ip st) = ips_blocked st \<and>
   (ip \<in> blocked_ips (run_calls ml_model scaler cs initial_state) \<longrightarrow>
      blocked_ips (unblock_ip (Returncode 0) ip (run_calls ml_model scaler cs initial_state))
        = blocked_ips (run_calls ml_model scaler cs initial_state) - {ip} \<and>
      card (blocked_ips
              (unblock_ip (Returncode 0) ip (run_calls ml_model scaler cs initial_state)))
        < ips_blocked
              (unblock_ip (Returncode 0) ip (run_calls ml_model scaler cs initial_state)))"
proof -
  let ?s = "run_calls ml_model scaler cs initial_state"
  have "finite (blocked_ips initial_state) \<and>
        card (blocked_ips initial_state) \<le> ips_blocked initial_state"
    by (simp add: initial_state_def)
  then have inv: "finite (blocked_ips ?s) \<and> card (blocked_ips ?s) \<le> ips_blocked ?s"
    by (rule run_calls_invariant)
  have mono: "ips_blocked st \<le> ips_blocked (run_call ml_model scaler c st)"
    by (rule run_call_counter_mono)
  have keep: "ips_blocked (unblock_ip r ip st) = ips_blocked st"
    by (rule unblock_ip_counter)
  have strict: "ip \<in> blocked_ips ?s \<longrightarrow>
      blocked_ips (unblock_ip (Returncode 0) ip ?s) = blocked_ips ?s - {ip} \<and>
      card (blocked_ips (unblock_ip (Returncode 0) ip ?s))
        < ips_blocked (unblock_ip (Returncode 0) ip ?s)"
  proof
    assume mem: "ip \<in> blocked_ips ?s"
    have rem: "blocked_ips (unblock_ip (Returncode 0) ip ?s) = blocked_ips ?s - {ip}"
      by (simp add: unblock_ip_def Let_def)
    have "card (blocked_ips ?s - {ip}) < card (blocked_ips ?s)"
      using inv mem by (intro card_Diff1_less) simp_all
    also have "\<dots> \<le> ips_blocked ?s" using inv by simp
    finally have "card (blocked_ips ?s - {ip}) < ips_blocked ?s" .
    then show "blocked_ips (unblock_ip (Returncode 0) ip ?s) = blocked_ips ?s - {ip} \<and>
      card (blocked_ips (unblock_ip (Returncode 0) ip ?s))
        < ips_blocked (unblock_ip (Returncode 0) ip ?s)"
      using rem by (simp add: unblock_ip_counter)
  qed
  from inv mono keep strict show ?thesis by blast
qed

theorem blocked_count_monotone_witness:
  "card (blocked_ips
           (run_calls None None [Block_ip (Returncode 0) (str ''10.0.0.5'')] initial_state))
     \<le> ips_blocked
           (run_calls None None [Block_ip (Returncode 0) (str ''10.0.0.5'')] initial_state) \<and>
   card (blocked_ips
           (unblock_ip (Returncode 0) (str ''10.0.0.5'')
              (run_calls None None [Block_ip (Returncode 0) (str ''10.0.0.5'')]
                 initial_state)))
     < ips_blocked
           (unblock_ip (Returncode 0) (str ''10.0.0.5'')
              (run_calls None None [Block_ip (Returncode 0) (str ''10.0.0.5'')]
                 initial_state))"
proof -
  let ?IP = "str ''10.0.0.5''"
  let ?S = "run_calls None None [Block_ip (Returncode 0) ?IP] initial_state"
  note t = blocked_count_monotone [where ml_model = None and scaler = None
      and cs = "[Block_ip (Returncode 0) ?IP]" and ip = ?IP and st = initial_state
      and c = "Block_ip (Returncode 0) ?IP" and r = "Returncode 0"]
  have mem: "?IP \<in> blocked_ips ?S"
    by (simp add: block_ip_def Let_def initial_state_def)
  have a: "card (blocked_ips ?S) \<le> ips_blocked ?S"
    using t by (elim conjE)
  have "?IP \<in> blocked_ips ?S \<longrightarrow>
      blocked_ips (unblock_ip (Returncode 0) ?IP ?S) = blocked_ips ?S - {?IP} \<and>
      card (blocked_ips (unblock_ip (Returncode 0) ?IP ?S))
        < ips_blocked (unblock_ip (Returncode 0) ?IP ?S)"
    using t by (elim conjE)
  with mem have b: "card (blocked_ips (unblock_ip (Returncode 0) ?IP ?S))
        < ips_blocked (unblock_ip (Returncode 0) ?IP ?S)"
    by blast
  from a b show ?thesis by (rule conjI)
qed

text \<open>
  C10 as stated fails: a successful unblock of a source that is not in the blocked set,
  here in the initial state, leaves the set empty and the counter 0, so the set does not
  have fewer members than the counter says.
\<close>

theorem unblock_strict_counterexample:
  "\<not> card (blocked_ips (unblock_ip (Returncode 0) (str ''10.0.0.5'') initial_state))
      < ips_blocked (unblock_ip (Returncode 0) (str ''10.0.0.5'') initial_state)"
  by (simp add: unblock_ip_def Let_def initial_state_def)



text \<open>
  C6, missing delimiter. For a string without the delimiter \<^verbatim>\<open>|\<close> the checksum check
  gives the whole string and validity \<open>None\<close>, never false; when such a string is what the
  payload decrypts to, the callback's check reports \<open>None\<close> and the count of checksum
  failures stays as it was.
\<close>

theorem missing_delimiter_unknown:
  assumes "124 \<notin> set s"
  shows "verify_checksum s = (s, None) \<and>
         snd (verify_checksum s) \<noteq> Some False \<and>
         (decrypt_aes (msg_payload msg) = Some s \<longrightarrow>
            check_payload (msg_payload msg) st = (None, st) \<and>
            checksum_failures (on_message ml_model scaler ev msg st) = checksum_failures st)"
proof -
  have ver: "verify_checksum s = (s, None)"
    using assms by (simp add: verify_checksum_def)
  have "decrypt_aes (msg_payload msg) = Some s \<longrightarrow>
          check_payload (msg_payload msg) st = (None, st)"
    by (simp add: check_payload_def ver)
  then show ?thesis
    by (simp add: ver on_message_checksum_failures)
qed

theorem missing_delimiter_unknown_witness:
  "verify_checksum (str ''hello'') = (str ''hello'', None) \<and>
   checksum_failures
     (on_message None None
        \<lparr>time_now = 10, now_str = str ''2024-01-01 00:00:10'',
          iptables_result = Returncode 0, log_writable = True\<rparr>
        \<lparr>msg_topic = str ''home/temp'',
          msg_payload = projr (encrypt_aes Pkcs7 (str ''hello''))\<rparr>
        initial_state) = 0"
proof -
  let ?s = "str ''hello''"
  let ?EV = "\<lparr>time_now = 10, now_str = str ''2024-01-01 00:00:10'',
              iptables_result = Returncode 0, log_writable = True\<rparr>"
  let ?MSG = "\<lparr>msg_topic = str ''home/temp'',
               msg_payload = projr (encrypt_aes Pkcs7 ?s)\<rparr>"
  have nd: "124 \<notin> set ?s" by (simp add: str_def)
  have "\<forall>c \<in> set ?s. c < 128" by (simp add: str_def)
  then have "utf8_encode ?s = Inr (map of_nat ?s)" by (rule utf8_encode_ascii)
  from encrypt_aes_pkcs7_total [OF this] obtain ct
    where ct: "encrypt_aes Pkcs7 ?s = Inr ct" by blast
  have "decrypt_aes ct = Some ?s" using ct by (rule decrypt_aes_of_encrypt_pkcs7)
  then have dec: "decrypt_aes (msg_payload ?MSG) = Some ?s" by (simp add: ct)
  note t = missing_delimiter_unknown [OF nd, where msg = ?MSG and st = initial_state
      and ml_model = None and scaler = None and ev = ?EV]
  have a: "verify_checksum ?s = (?s, None)" using t by (elim conjE)
  have "decrypt_aes (msg_payload ?MSG) = Some ?s \<longrightarrow>
          check_payload (msg_payload ?MSG) initial_state = (None, initial_state) \<and>
          checksum_failures (on_message None None ?EV ?MSG initial_state)
            = checksum_failures initial_state"
    using t by (elim conjE)
  with dec have "checksum_failures (on_message None None ?EV ?MSG initial_state)
            = checksum_failures initial_state"
    by blast
  then have b: "checksum_failures (on_message None None ?EV ?MSG initial_state) = 0"
    by (simp add: initial_state_def)
  from a b show ?thesis by (rule conjI)
qed

end
